theory Spec2Isabelle
  imports Complex_Main "HOL-Library.Monad_Syntax"
begin

section \<open>Python values and exceptions\<close>

text \<open>
  The values that \<^verbatim>\<open>request.json\<close> can yield and that \<^verbatim>\<open>json.dumps\<close> accepts.
  A dict is an association list in insertion order; lookup and item assignment act on the
  first entry with the key, so a list with distinct keys behaves as the Python dict does.
  A float is modelled by the rational number it stands for: \<^verbatim>\<open>app.py\<close> stores and
  forwards floats and performs no arithmetic on agent data.
\<close>

datatype pyval =
    PNone
  | PBool bool
  | PInt int
  | PFloat rat
  | PStr string
  | PList "pyval list"
  | PDict "(string \<times> pyval) list"

text \<open>
  Exceptions, all subclasses of Python's \<^verbatim>\<open>Exception\<close>: the ones raised by the
  operations of \<^verbatim>\<open>app.py\<close>, the request-parsing failure of the framework, and the three
  failure classes the specification gives the core.
\<close>

datatype exn =
    TypeError
  | AttributeError
  | KeyError
  | ValueError
  | BadRequest
  | ValidationError
  | NumericalError
  | IndexingError

type_synonym pydict = "(string \<times> pyval) list"

fun dict_get :: "pydict \<Rightarrow> string \<Rightarrow> pyval option" where
  "dict_get [] k = None"
| "dict_get ((k', v) # d) k = (if k' = k then Some v else dict_get d k)"

fun dict_set :: "pydict \<Rightarrow> string \<Rightarrow> pyval \<Rightarrow> pydict" where
  "dict_set [] k v = [(k, v)]"
| "dict_set ((k', v') # d) k v = (if k' = k then (k, v) # d else (k', v') # dict_set d k v)"

text \<open>Truth value of an object, as \<^verbatim>\<open>or\<close> and \<^verbatim>\<open>if\<close> test it.\<close>

fun truthy :: "pyval \<Rightarrow> bool" where
  "truthy PNone = False"
| "truthy (PBool b) = b"
| "truthy (PInt i) = (i \<noteq> 0)"
| "truthy (PFloat r) = (r \<noteq> 0)"
| "truthy (PStr s) = (s \<noteq> [])"
| "truthy (PList xs) = (xs \<noteq> [])"
| "truthy (PDict d) = (d \<noteq> [])"

text \<open>\<^verbatim>\<open>a or b\<close>\<close>

definition py_or :: "pyval \<Rightarrow> pyval \<Rightarrow> pyval" where
  "py_or a b = (if truthy a then a else b)"

text \<open>\<^verbatim>\<open>obj.keys()\<close>: only a dict has the attribute.\<close>

fun keys :: "pyval \<Rightarrow> exn + string list" where
  "keys (PDict d) = Inr (map fst d)"
| "keys _ = Inl AttributeError"

text \<open>
  \<^verbatim>\<open>obj[key]\<close> with a string key: a lookup in a dict, and a TypeError on the other
  values (a list or a string takes integer indices, the rest are not subscriptable).
\<close>

fun getitem :: "pyval \<Rightarrow> string \<Rightarrow> exn + pyval" where
  "getitem (PDict d) k = (case dict_get d k of None \<Rightarrow> Inl KeyError | Some v \<Rightarrow> Inr v)"
| "getitem _ k = Inl TypeError"

text \<open>\<^verbatim>\<open>obj[key] = value\<close> with a string key; the updated object is returned.\<close>

fun setitem :: "pyval \<Rightarrow> string \<Rightarrow> pyval \<Rightarrow> exn + pyval" where
  "setitem (PDict d) k v = Inr (PDict (dict_set d k v))"
| "setitem _ k v = Inl TypeError"

section \<open>Requests, responses, the database table\<close>

text \<open>
  What the handlers read of a request: method, path, the outcome of evaluating
  \<^verbatim>\<open>request.json\<close> (the framework raises when the body is not JSON), and the attribute
  \<^verbatim>\<open>_start_time\<close> that the before-request hook sets.
\<close>

record request =
  req_method :: string
  req_path :: string
  req_json :: "exn + pyval"
  req_start_time :: "rat option"

record response =
  status_code :: int
  resp_body :: string

text \<open>The model class \<^verbatim>\<open>Simulation\<close>: an integer primary key and the text column.\<close>

record Simulation =
  sim_id :: int
  sim_data :: string

type_synonym table = "Simulation list"

text \<open>\<^verbatim>\<open>Simulation.query.order_by(Simulation.id.desc()).first()\<close>\<close>

fun first_id_desc :: "table \<Rightarrow> Simulation option" where
  "first_id_desc [] = None"
| "first_id_desc (r # rs) =
     (case first_id_desc rs of
        None \<Rightarrow> Some r
      | Some b \<Rightarrow> if sim_id b < sim_id r then Some r else Some b)"

text \<open>
  \<^verbatim>\<open>db.session.add(simulation); db.session.commit()\<close>: the row is inserted at the end
  of the table with the next key of an integer primary key, one more than the greatest
  key in the table, and 1 in an empty table.
\<close>

definition next_id :: "table \<Rightarrow> int" where
  "next_id t = (case first_id_desc t of None \<Rightarrow> 1 | Some r \<Rightarrow> sim_id r + 1)"

definition add_commit :: "string \<Rightarrow> table \<Rightarrow> table" where
  "add_commit d t = t @ [\<lparr>sim_id = next_id t, sim_data = d\<rparr>]"

text \<open>What a view function returns: a string, or an object the framework serialises.\<close>

datatype view_result = Text string | Json pyval

section \<open>Metrics hooks\<close>

text \<open>
  The metrics library is a collaborator: its registry is a state of type \<open>'m\<close>, and the
  three recordings the application makes are operations on it. The two labelled ones may
  raise.
\<close>

record 'm prometheus =
  latency_observe :: "string \<Rightarrow> string \<Rightarrow> rat \<Rightarrow> 'm \<Rightarrow> exn + 'm"
  count_inc :: "string \<Rightarrow> string \<Rightarrow> string \<Rightarrow> 'm \<Rightarrow> exn + 'm"
  duration_observe :: "rat \<Rightarrow> 'm \<Rightarrow> 'm"

text \<open>\<^verbatim>\<open>str(n)\<close> for an integer.\<close>

fun digit_char :: "nat \<Rightarrow> char" where
  "digit_char n = (''0123456789'' ! n)"

fun str_nat :: "nat \<Rightarrow> string" where
  "str_nat n = (if n < 10 then [digit_char n] else str_nat (n div 10) @ [digit_char (n mod 10)])"

definition str_int :: "int \<Rightarrow> string" where
  "str_int i = (if i < 0 then CHR ''-'' # str_nat (nat (- i)) else str_nat (nat i))"

text \<open>\<^verbatim>\<open>_start_timer\<close>, with the reading of \<^verbatim>\<open>time.perf_counter()\<close> as \<open>now\<close>.\<close>

definition start_timer :: "rat \<Rightarrow> request \<Rightarrow> request" where
  "start_timer now req = req\<lparr>req_start_time := Some now\<rparr>"

text \<open>
  The body of the \<^verbatim>\<open>try\<close> block of \<^verbatim>\<open>_record_metrics\<close>: the latency is observed, then
  the request is counted. A raise leaves the registry as the statements before it made it.
\<close>

definition record_metrics_try ::
  "'m prometheus \<Rightarrow> rat \<Rightarrow> request \<Rightarrow> response \<Rightarrow> 'm \<Rightarrow> (exn + unit) \<times> 'm" where
  "record_metrics_try P now req resp m =
     (case req_start_time req of
        None \<Rightarrow> (Inr (), m)
      | Some start \<Rightarrow>
          (let latency = now - start;
               path = (if req_path req \<noteq> [] then req_path req else ''/'')
           in case latency_observe P (req_method req) path latency m of
                Inl e \<Rightarrow> (Inl e, m)
              | Inr m1 \<Rightarrow>
                  (case count_inc P (req_method req) path (str_int (status_code resp)) m1 of
                     Inl e \<Rightarrow> (Inl e, m1)
                   | Inr m2 \<Rightarrow> (Inr (), m2))))"

text \<open>\<^verbatim>\<open>_record_metrics\<close>: \<^verbatim>\<open>except Exception: pass\<close>, then \<^verbatim>\<open>return resp\<close>.\<close>

definition record_metrics ::
  "'m prometheus \<Rightarrow> rat \<Rightarrow> request \<Rightarrow> response \<Rightarrow> 'm \<Rightarrow> response \<times> 'm" where
  "record_metrics P now req resp m =
     (case record_metrics_try P now req resp m of
        (Inl e, m') \<Rightarrow> (resp, m')
      | (Inr u, m') \<Rightarrow> (resp, m'))"

section \<open>Endpoints\<close>

definition health :: string where
  "health = ''<p>Sedaro Nano API - running!</p>''"

text \<open>\<^verbatim>\<open>get_data\<close>: \<^verbatim>\<open>simulation.data if simulation else []\<close>\<close>

definition get_data :: "table \<Rightarrow> view_result" where
  "get_data t =
     (case first_id_desc t of
        Some simulation \<Rightarrow> Text (sim_data simulation)
      | None \<Rightarrow> Json (PList []))"

text \<open>
  The body of the loop of \<^verbatim>\<open>simulate\<close> for one key:
  \<^verbatim>\<open>init[key]["time"] = 0; init[key]["timeStep"] = 0.01\<close>. The agent object is
  updated in place, which in the model is writing the updated object back under its key.
\<close>

definition define_time :: "string \<Rightarrow> pyval \<Rightarrow> exn + pyval" where
  "define_time key init =
     (case getitem init key of
        Inl e \<Rightarrow> Inl e
      | Inr a \<Rightarrow>
          (case setitem a ''time'' (PInt 0) of
             Inl e \<Rightarrow> Inl e
           | Inr a1 \<Rightarrow>
               (case setitem a1 ''timeStep'' (PFloat 0.01) of
                  Inl e \<Rightarrow> Inl e
                | Inr a2 \<Rightarrow> setitem init key a2)))"

fun for_keys :: "string list \<Rightarrow> pyval \<Rightarrow> exn + pyval" where
  "for_keys [] init = Inr init"
| "for_keys (key # ks) init =
     (case define_time key init of
        Inl e \<Rightarrow> Inl e
      | Inr init' \<Rightarrow> for_keys ks init')"

text \<open>
  Lines 110 to 113 of \<^verbatim>\<open>simulate\<close>: \<^verbatim>\<open>init = request.json or {}\<close> and the loop
  over \<^verbatim>\<open>init.keys()\<close>. The result is the document handed to the simulator.
\<close>

definition build_init :: "request \<Rightarrow> exn + pyval" where
  "build_init req =
     (case req_json req of
        Inl e \<Rightarrow> Inl e
      | Inr j \<Rightarrow>
          (let init = py_or j (PDict [])
           in case keys init of
                Inl e \<Rightarrow> Inl e
              | Inr ks \<Rightarrow> for_keys ks init))"

text \<open>
  The simulator and the store are collaborators of the handler: \<^verbatim>\<open>QRangeStore()\<close>
  builds a store, \<^verbatim>\<open>Simulator(store=store, init=init)\<close> a simulator that holds it,
  \<^verbatim>\<open>simulator.simulate()\<close> runs it and leaves the store object in a new state (the value
  returned here), \<^verbatim>\<open>store.store\<close> reads the store's contents. \<^verbatim>\<open>json.dumps\<close> is
  the standard library's serialiser.
\<close>

record ('sim, 'store) core =
  QRangeStore :: "'store"
  Simulator :: "'store \<Rightarrow> pyval \<Rightarrow> exn + 'sim"
  sim_simulate :: "'sim \<Rightarrow> exn + 'store"
  store_store :: "'store \<Rightarrow> pyval"
  json_dumps :: "pyval \<Rightarrow> string"

text \<open>
  Lines 110 to 124 of \<^verbatim>\<open>simulate\<close>: the initial conditions, the store and the simulator,
  the run. Neither the table nor the metrics registry is read or written here; the value
  is the state of the store after the run, or the exception that ended the handler.
\<close>

definition run_simulator :: "('sim, 'store) core \<Rightarrow> request \<Rightarrow> exn + 'store" where
  "run_simulator K req =
     (case build_init req of
        Inl e \<Rightarrow> Inl e
      | Inr init \<Rightarrow>
          (let store = QRangeStore K
           in case Simulator K store init of
                Inl e \<Rightarrow> Inl e
              | Inr simulator \<Rightarrow> sim_simulate K simulator))"

text \<open>The state of the application: the table and the metrics registry.\<close>

record 'm app_state =
  db :: table
  registry :: 'm

text \<open>
  \<^verbatim>\<open>simulate\<close>. On a completed run the serialised store is inserted and the store's
  contents are returned; an exception leaves the handler before the insert. The
  \<^verbatim>\<open>with SIMULATION_DURATION.time()\<close> block observes the elapsed time \<open>el\<close> on both exits.
  The two \<^verbatim>\<open>logging.info\<close> calls only write to the log and are left out.
\<close>

definition simulate ::
  "'m prometheus \<Rightarrow> ('sim, 'store) core \<Rightarrow> rat \<Rightarrow> request \<Rightarrow> 'm app_state
     \<Rightarrow> (exn + view_result) \<times> 'm app_state" where
  "simulate P K el req s =
     (case run_simulator K req of
        Inl e \<Rightarrow> (Inl e, s\<lparr>registry := duration_observe P el (registry s)\<rparr>)
      | Inr store \<Rightarrow>
          (let simulation = json_dumps K (store_store K store)
           in (Inr (Json (store_store K store)),
               s\<lparr>db := add_commit simulation (db s),
                 registry := duration_observe P el (registry s)\<rparr>)))"

text \<open>A sequence of POST requests handled one after the other.\<close>

fun simulate_all ::
  "'m prometheus \<Rightarrow> ('sim, 'store) core \<Rightarrow> (rat \<times> request) list \<Rightarrow> 'm app_state
     \<Rightarrow> 'm app_state" where
  "simulate_all P K [] s = s"
| "simulate_all P K ((el, req) # rs) s = simulate_all P K rs (snd (simulate P K el req s))"

text \<open>
  The serialised output of the last request of a sequence whose run completed, if there
  is one.
\<close>

fun last_stored :: "('sim, 'store) core \<Rightarrow> (rat \<times> request) list \<Rightarrow> string option" where
  "last_stored K [] = None"
| "last_stored K ((el, req) # rs) =
     (case last_stored K rs of
        Some d \<Rightarrow> Some d
      | None \<Rightarrow>
          (case run_simulator K req of
             Inl e \<Rightarrow> None
           | Inr store \<Rightarrow> Some (json_dumps K (store_store K store))))"

section \<open>The simulation core\<close>

text \<open>
  Modelled from the spec: the agent state of the data model (the modules
  \<^verbatim>\<open>simulator\<close> and \<^verbatim>\<open>store\<close> that \<^verbatim>\<open>app.py\<close> imports are not among the sources).
  A record per agent per instant: position, velocity, current simulation time and the
  agent's own time step. Double-precision numbers are modelled by rationals.
\<close>

record agent_state =
  pos_x :: rat
  pos_y :: rat
  vel_x :: rat
  vel_y :: rat
  cur_time :: rat
  time_step :: rat

text \<open>
  Modelled from the spec: the interval record, a triple of start time, end time and
  agent state belonging to one named agent.
\<close>

record interval_record =
  start_time :: rat
  end_time :: rat
  rec_state :: agent_state

text \<open>
  Modelled from the spec: the RangeStore, which owns the ordered sequence of interval
  records of each agent. The run's initial time of the agent is kept with the sequence,
  for the precondition of the first append.
\<close>

record agent_track =
  initial_time :: rat
  records :: "interval_record list"

text \<open>
  Modelled from the spec: the RangeStore itself, the mapping from agent name to the
  agent's sequence, in the order in which the agents were registered.
\<close>

type_synonym range_store = "(string \<times> agent_track) list"

text \<open>
  Modelled from the spec: the end of an agent's last recorded interval, or the run's
  initial time if no prior interval exists.
\<close>

definition track_end :: "agent_track \<Rightarrow> rat" where
  "track_end tr = (if records tr = [] then initial_time tr else end_time (last (records tr)))"

text \<open>
  Modelled from the spec: \<^verbatim>\<open>append(agent_name, start_time, end_time, state)\<close> of the
  RangeStore. The start must equal the end of the agent's last interval (or the initial
  time), and the end must be greater than the start; a violation is an IndexingError.
  The interval is added at the end of the named agent's sequence.
\<close>

fun append_interval :: "string \<Rightarrow> rat \<Rightarrow> rat \<Rightarrow> agent_state \<Rightarrow> range_store \<Rightarrow> exn + range_store" where
  "append_interval name s e a [] = Inl IndexingError"
| "append_interval name s e a ((n, tr) # st) =
     (if n = name then
        (if s = track_end tr \<and> s < e
         then Inr ((n, tr\<lparr>records := records tr @ [\<lparr>start_time = s, end_time = e, rec_state = a\<rparr>]\<rparr>) # st)
         else Inl IndexingError)
      else (case append_interval name s e a st of
              Inl err \<Rightarrow> Inl err
            | Inr st' \<Rightarrow> Inr ((n, tr) # st')))"

text \<open>
  Modelled from the spec: \<^verbatim>\<open>export()\<close> of the RangeStore, the full mapping from agent
  name to its ordered interval sequence.
\<close>

definition export :: "range_store \<Rightarrow> (string \<times> interval_record list) list" where
  "export st = map (\<lambda>(n, tr). (n, records tr)) st"

text \<open>
  Modelled from the spec: the guard of the Integrator. The separation of two agents is
  zero exactly when its square is.
\<close>

definition separation_sq :: "agent_state \<Rightarrow> agent_state \<Rightarrow> rat" where
  "separation_sq a b = (pos_x b - pos_x a) * (pos_x b - pos_x a) + (pos_y b - pos_y a) * (pos_y b - pos_y a)"

text \<open>
  Modelled from the spec: step 1 of the Integrator for one agent, the net interaction
  effect on \<open>a\<close> as the sum of the pairwise contributions of the other agents. The
  specification leaves the force law open, so the contribution of \<open>b\<close> to \<open>a\<close> is the
  parameter \<open>F\<close>. Zero separation is detected before the contribution is computed and is
  a NumericalError.
\<close>

fun net_effect ::
  "(agent_state \<Rightarrow> agent_state \<Rightarrow> rat \<times> rat) \<Rightarrow> agent_state \<Rightarrow> agent_state list \<Rightarrow> exn + rat \<times> rat" where
  "net_effect F a [] = Inr (0, 0)"
| "net_effect F a (b # bs) =
     (if separation_sq a b = 0 then Inl NumericalError
      else (case net_effect F a bs of
              Inl err \<Rightarrow> Inl err
            | Inr (ax, ay) \<Rightarrow> Inr (fst (F a b) + ax, snd (F a b) + ay)))"

text \<open>Modelled from the spec: every other agent \<open>B \<noteq> A\<close> of the registry.\<close>

definition others :: "string \<Rightarrow> (string \<times> agent_state) list \<Rightarrow> agent_state list" where
  "others name ags = map snd (filter (\<lambda>(n, b). n \<noteq> name) ags)"

text \<open>
  Modelled from the spec: step 1 of the Integrator across all agents. All accelerations
  of the iteration are computed from the same snapshot \<open>snap\<close> before any agent is
  advanced.
\<close>

fun accelerations ::
  "(agent_state \<Rightarrow> agent_state \<Rightarrow> rat \<times> rat) \<Rightarrow> (string \<times> agent_state) list
     \<Rightarrow> (string \<times> agent_state) list \<Rightarrow> exn + (string \<times> agent_state \<times> (rat \<times> rat)) list" where
  "accelerations F snap [] = Inr []"
| "accelerations F snap ((n, a) # ags) =
     (case net_effect F a (others n snap) of
        Inl err \<Rightarrow> Inl err
      | Inr acc \<Rightarrow>
          (case accelerations F snap ags of
             Inl err \<Rightarrow> Inl err
           | Inr accs \<Rightarrow> Inr ((n, a, acc) # accs)))"

text \<open>
  Modelled from the spec: steps 2 to 4 of the Integrator for one agent. The velocity is
  updated with the acceleration and the agent's own step, the position with the new
  velocity, and the local time advances by the step.
\<close>

definition advance :: "agent_state \<Rightarrow> rat \<times> rat \<Rightarrow> agent_state" where
  "advance a acc =
     (let dt = time_step a;
          vx = vel_x a + fst acc * dt;
          vy = vel_y a + snd acc * dt
      in a\<lparr>pos_x := pos_x a + vx * dt, pos_y := pos_y a + vy * dt,
           vel_x := vx, vel_y := vy, cur_time := cur_time a + dt\<rparr>)"

text \<open>
  Modelled from the spec: steps 2 to 5 across all agents. Each agent is advanced and
  the resulting state is appended as the interval from its old time to its new time.
\<close>

fun advance_all ::
  "(string \<times> agent_state \<times> (rat \<times> rat)) list \<Rightarrow> range_store
     \<Rightarrow> exn + (string \<times> agent_state) list \<times> range_store" where
  "advance_all [] st = Inr ([], st)"
| "advance_all ((n, a, acc) # accs) st =
     (let a' = advance a acc
      in case append_interval n (cur_time a) (cur_time a') a' st of
           Inl err \<Rightarrow> Inl err
         | Inr st1 \<Rightarrow>
             (case advance_all accs st1 of
                Inl err \<Rightarrow> Inl err
              | Inr (ags', st') \<Rightarrow> Inr ((n, a') # ags', st')))"

text \<open>Modelled from the spec: one global iteration of the Integrator.\<close>

definition integrator_step ::
  "(agent_state \<Rightarrow> agent_state \<Rightarrow> rat \<times> rat) \<Rightarrow> (string \<times> agent_state) list \<times> range_store
     \<Rightarrow> exn + (string \<times> agent_state) list \<times> range_store" where
  "integrator_step F s =
     (case accelerations F (fst s) (fst s) of
        Inl err \<Rightarrow> Inl err
      | Inr accs \<Rightarrow> advance_all accs (snd s))"

text \<open>
  Modelled from the spec: the states of a SimulationRun, from \<open>CREATED\<close> through
  \<open>RUNNING\<close> to one of the terminal states.
\<close>

datatype run_status = CREATED | RUNNING | COMPLETED | FAILED

text \<open>
  Modelled from the spec: a SimulationRun, with its agent registry, its RangeStore and
  its state.
\<close>

record simulation_run =
  agents :: "(string \<times> agent_state) list"
  store :: range_store
  status :: run_status

text \<open>
  Modelled from the spec: the outcome of \<^verbatim>\<open>run\<close>, success with the count of completed
  iterations, or failure with the iteration at which it stopped and the cause.
\<close>

datatype run_result = Success nat | Failure nat exn

text \<open>
  Modelled from the spec: a numeric value of the initial-conditions document, an integer
  or a float.
\<close>

fun numeric :: "pyval \<Rightarrow> rat option" where
  "numeric (PInt i) = Some (of_int i)"
| "numeric (PFloat r) = Some r"
| "numeric _ = None"

text \<open>Modelled from the spec: a numeric field that an agent supplies.\<close>

definition num_field :: "pydict \<Rightarrow> string \<Rightarrow> rat option" where
  "num_field d k = (case dict_get d k of None \<Rightarrow> None | Some v \<Rightarrow> numeric v)"

text \<open>
  Modelled from the spec: validation of one agent of the initial-conditions mapping. It
  must supply position, velocity, time and step size, all numeric; the field names are
  those of the documents that \<^verbatim>\<open>app.py\<close> builds.
\<close>

fun parse_agent :: "pyval \<Rightarrow> agent_state option" where
  "parse_agent (PDict d) =
     do {
       px \<leftarrow> num_field d ''x'';
       py \<leftarrow> num_field d ''y'';
       vx \<leftarrow> num_field d ''vx'';
       vy \<leftarrow> num_field d ''vy'';
       t \<leftarrow> num_field d ''time'';
       dt \<leftarrow> num_field d ''timeStep'';
       Some \<lparr>pos_x = px, pos_y = py, vel_x = vx, vel_y = vy, cur_time = t, time_step = dt\<rparr>
     }"
| "parse_agent _ = None"

text \<open>
  Modelled from the spec: validation of every agent of the mapping, which gives the
  agent registry.
\<close>

fun parse_agents :: "pydict \<Rightarrow> (string \<times> agent_state) list option" where
  "parse_agents [] = Some []"
| "parse_agents ((n, v) # d) =
     (case parse_agent v of
        None \<Rightarrow> None
      | Some a \<Rightarrow>
          (case parse_agents d of
             None \<Rightarrow> None
           | Some ags \<Rightarrow> Some ((n, a) # ags)))"

text \<open>
  Modelled from the spec: \<^verbatim>\<open>create(initial_conditions)\<close> of the SimulationRun. It
  validates the mapping, constructs the agent registry and a fresh RangeStore, and fails
  with a validation error if any agent is malformed or if the mapping is empty.
\<close>

fun create :: "pyval \<Rightarrow> exn + simulation_run" where
  "create (PDict d) =
     (if d = [] then Inl ValidationError
      else (case parse_agents d of
              None \<Rightarrow> Inl ValidationError
            | Some ags \<Rightarrow>
                Inr \<lparr>agents = ags,
                     store = map (\<lambda>(n, a). (n, \<lparr>initial_time = cur_time a, records = []\<rparr>)) ags,
                     status = CREATED\<rparr>))"
| "create _ = Inl ValidationError"

text \<open>
  Modelled from the spec: the loop of \<^verbatim>\<open>run(max_iterations)\<close>, one Integrator step
  across all agents per iteration until the bound is reached or a step fails; \<open>k\<close> counts
  the completed iterations. A failed iteration leaves the results of the iterations
  before it.
\<close>

fun iterate ::
  "(agent_state \<Rightarrow> agent_state \<Rightarrow> rat \<times> rat) \<Rightarrow> nat \<Rightarrow> nat
     \<Rightarrow> (string \<times> agent_state) list \<times> range_store
     \<Rightarrow> ((string \<times> agent_state) list \<times> range_store) \<times> run_result" where
  "iterate F 0 k s = (s, Success k)"
| "iterate F (Suc n) k s =
     (case integrator_step F s of
        Inl err \<Rightarrow> (s, Failure k err)
      | Inr s' \<Rightarrow> iterate F n (Suc k) s')"

text \<open>
  Modelled from the spec: \<^verbatim>\<open>run(max_iterations)\<close> of the SimulationRun, which ends in
  one of the terminal states.
\<close>

definition run ::
  "(agent_state \<Rightarrow> agent_state \<Rightarrow> rat \<times> rat) \<Rightarrow> nat \<Rightarrow> simulation_run
     \<Rightarrow> simulation_run \<times> run_result" where
  "run F max_iterations r =
     (case iterate F max_iterations 0 (agents r, store r) of
        (s, Success k) \<Rightarrow> (\<lparr>agents = fst s, store = snd s, status = COMPLETED\<rparr>, Success k)
      | (s, Failure k err) \<Rightarrow> (\<lparr>agents = fst s, store = snd s, status = FAILED\<rparr>, Failure k err))"

text \<open>Modelled from the spec: the state of an entry of the output document.\<close>

definition state_doc :: "agent_state \<Rightarrow> pyval" where
  "state_doc a =
     PDict [(''x'', PFloat (pos_x a)), (''y'', PFloat (pos_y a)),
            (''vx'', PFloat (vel_x a)), (''vy'', PFloat (vel_y a)),
            (''time'', PFloat (cur_time a)), (''timeStep'', PFloat (time_step a))]"

text \<open>
  Modelled from the spec: an entry of the output document, with start time, end time and
  state.
\<close>

definition record_doc :: "interval_record \<Rightarrow> pyval" where
  "record_doc r =
     PDict [(''start_time'', PFloat (start_time r)), (''end_time'', PFloat (end_time r)),
            (''state'', state_doc (rec_state r))]"

text \<open>
  Modelled from the spec: the output document, the export of the RangeStore as a mapping
  from agent name to an ordered sequence of entries.
\<close>

definition output_doc :: "range_store \<Rightarrow> pyval" where
  "output_doc st = PDict (map (\<lambda>(n, recs). (n, PList (map record_doc recs))) (export st))"

text \<open>
  Modelled from the spec: the core as the collaborator of the handler. The simulator is
  a SimulationRun created from the initial conditions with its own fresh RangeStore,
  \<^verbatim>\<open>simulate()\<close> is a run of \<open>max_iterations\<close> iterations whose failure is raised as an
  exception, and the store's contents are the output document.
\<close>

definition spec_core ::
  "(agent_state \<Rightarrow> agent_state \<Rightarrow> rat \<times> rat) \<Rightarrow> nat \<Rightarrow> (pyval \<Rightarrow> string)
     \<Rightarrow> (simulation_run, range_store) core" where
  "spec_core F max_iterations dumps =
     \<lparr>QRangeStore = [],
      Simulator = (\<lambda>st init. create init),
      sim_simulate = (\<lambda>r. case run F max_iterations r of
                            (r', Success k) \<Rightarrow> Inr (store r')
                          | (r', Failure k err) \<Rightarrow> Inl err),
      store_store = output_doc,
      json_dumps = dumps\<rparr>"

section \<open>The handler and the core as objects in a world\<close>

text \<open>
  The store and the simulator are objects. The constructors allocate them, the simulator
  keeps the store the handler passed to it, \<^verbatim>\<open>simulator.simulate()\<close> mutates that store,
  and the handler reads \<^verbatim>\<open>store.store\<close> through its own reference afterwards. Here the
  collaborators act on a world \<open>'w\<close>, which holds their objects and whatever else they
  keep from one request to the next; a constructor or a call that raises may have changed
  the world before.
\<close>

record ('w, 'sim, 'store) object_core =
  new_QRangeStore :: "'w \<Rightarrow> 'store \<times> 'w"
  new_Simulator :: "'store \<Rightarrow> pyval \<Rightarrow> 'w \<Rightarrow> (exn + 'sim) \<times> 'w"
  call_simulate :: "'sim \<Rightarrow> 'w \<Rightarrow> (exn + unit) \<times> 'w"
  read_store :: "'store \<Rightarrow> 'w \<Rightarrow> pyval"
  call_dumps :: "pyval \<Rightarrow> string"

text \<open>
  Lines 110 to 124 of \<^verbatim>\<open>simulate\<close> once more, with the world of the collaborators
  passed through: the value is the handler's reference to the store it created.
\<close>

definition run_simulator_in ::
  "('w, 'sim, 'store) object_core \<Rightarrow> request \<Rightarrow> 'w \<Rightarrow> (exn + 'store) \<times> 'w" where
  "run_simulator_in K req w =
     (case build_init req of
        Inl e \<Rightarrow> (Inl e, w)
      | Inr init \<Rightarrow>
          (case new_QRangeStore K w of
             (sref, w1) \<Rightarrow>
               (case new_Simulator K sref init w1 of
                  (Inl e, w2) \<Rightarrow> (Inl e, w2)
                | (Inr simulator, w2) \<Rightarrow>
                    (case call_simulate K simulator w2 of
                       (Inl e, w3) \<Rightarrow> (Inl e, w3)
                     | (Inr u, w3) \<Rightarrow> (Inr sref, w3)))))"

text \<open>
  \<^verbatim>\<open>simulate\<close> with the world of the collaborators passed through. The contents of the
  store are read through the handler's reference in the world that the run left.
\<close>

definition simulate_in ::
  "'m prometheus \<Rightarrow> ('w, 'sim, 'store) object_core \<Rightarrow> rat \<Rightarrow> request \<Rightarrow> 'm app_state \<times> 'w
     \<Rightarrow> (exn + view_result) \<times> 'm app_state \<times> 'w" where
  "simulate_in P K el req sw =
     (case run_simulator_in K req (snd sw) of
        (Inl e, w') \<Rightarrow>
          (Inl e, (fst sw)\<lparr>registry := duration_observe P el (registry (fst sw))\<rparr>, w')
      | (Inr sref, w') \<Rightarrow>
          (let simulation = call_dumps K (read_store K sref w')
           in (Inr (Json (read_store K sref w')),
               (fst sw)\<lparr>db := add_commit simulation (db (fst sw)),
                        registry := duration_observe P el (registry (fst sw))\<rparr>,
               w')))"

text \<open>
  Modelled from the spec: a simulator object, which holds the reference to its store,
  the agent registry and the state of the run.
\<close>

record simulator_object =
  held_store :: nat
  held_agents :: "(string \<times> agent_state) list"
  held_status :: run_status

text \<open>
  Modelled from the spec: the objects of the core, the stores and the simulators that
  the requests so far have constructed. A reference is a position in the list, and a
  constructor adds its object at the end.
\<close>

record world =
  stores :: "range_store list"
  simulators :: "simulator_object list"

text \<open>
  Modelled from the spec: the core as objects. The store constructor allocates an empty
  store. The simulator constructor is \<^verbatim>\<open>create\<close>, which puts the tracks of the agents in
  the store it was given and allocates the simulator. \<^verbatim>\<open>simulate()\<close> is a run of
  \<open>max_iterations\<close> iterations on the simulator's own store, with a failure raised as an
  exception. A reference that the world has not allocated does not occur in the handler;
  the model gives a ValueError or no contents there.
\<close>

definition spec_objects ::
  "(agent_state \<Rightarrow> agent_state \<Rightarrow> rat \<times> rat) \<Rightarrow> nat \<Rightarrow> (pyval \<Rightarrow> string)
     \<Rightarrow> (world, nat, nat) object_core" where
  "spec_objects F max_iterations dumps =
     \<lparr>new_QRangeStore = (\<lambda>w. (length (stores w), w\<lparr>stores := stores w @ [[]]\<rparr>)),
      new_Simulator = (\<lambda>ref init w.
        case create init of
          Inl err \<Rightarrow> (Inl err, w)
        | Inr r \<Rightarrow>
            (Inr (length (simulators w)),
             w\<lparr>stores := (stores w)[ref := store r],
               simulators := simulators w @
                 [\<lparr>held_store = ref, held_agents = agents r, held_status = status r\<rparr>]\<rparr>)),
      call_simulate = (\<lambda>sim w.
        if sim < length (simulators w) \<and> held_store (simulators w ! sim) < length (stores w)
        then
          (let obj = simulators w ! sim;
               ref = held_store obj;
               res = run F max_iterations
                       \<lparr>agents = held_agents obj, store = stores w ! ref, status = held_status obj\<rparr>;
               w' = w\<lparr>stores := (stores w)[ref := store (fst res)],
                      simulators := (simulators w)
                        [sim := obj\<lparr>held_agents := agents (fst res), held_status := status (fst res)\<rparr>]\<rparr>
           in case snd res of
                Success k \<Rightarrow> (Inr (), w')
              | Failure k err \<Rightarrow> (Inl err, w'))
        else (Inl ValueError, w)),
      read_store = (\<lambda>ref w. if ref < length (stores w) then output_doc (stores w ! ref) else PNone),
      call_dumps = dumps\<rparr>"

text \<open>
  Modelled from the spec: the world after a request whose run ended as \<open>r\<close>, one store
  and one simulator more than before.
\<close>

definition world_after ::
  "world \<Rightarrow> simulation_run \<Rightarrow> world" where
  "world_after w r =
     \<lparr>stores = stores w @ [store r],
      simulators = simulators w @
        [\<lparr>held_store = length (stores w), held_agents = agents r, held_status = status r\<rparr>]\<rparr>"

section \<open>The core in double precision\<close>

text \<open>
  Modelled from the spec: a value of double precision, a finite number, an infinity or
  a NaN. The sign of zero is left out. Rounding is a parameter \<open>rnd\<close> of the arithmetic:
  it gives the double for an exact result, an infinity on overflow.
\<close>

datatype dbl = Fin rat | PosInf | NegInf | NaN

text \<open>
Modelled from the spec: a value is finite, neither NaN nor an infinity.
\<close>

fun is_finite :: "dbl \<Rightarrow> bool" where
  "is_finite (Fin x) = True"
| "is_finite _ = False"

text \<open>
Modelled from the spec: negation in double precision.
\<close>

fun dneg :: "dbl \<Rightarrow> dbl" where
  "dneg (Fin x) = Fin (- x)"
| "dneg PosInf = NegInf"
| "dneg NegInf = PosInf"
| "dneg NaN = NaN"

text \<open>
  Modelled from the spec: addition in double precision. A NaN operand and the sum of
  opposite infinities give NaN, an infinity absorbs a finite operand.
\<close>

fun dadd :: "(rat \<Rightarrow> dbl) \<Rightarrow> dbl \<Rightarrow> dbl \<Rightarrow> dbl" where
  "dadd rnd (Fin x) (Fin y) = rnd (x + y)"
| "dadd rnd NaN b = NaN"
| "dadd rnd a NaN = NaN"
| "dadd rnd PosInf NegInf = NaN"
| "dadd rnd NegInf PosInf = NaN"
| "dadd rnd PosInf b = PosInf"
| "dadd rnd a PosInf = PosInf"
| "dadd rnd NegInf b = NegInf"
| "dadd rnd a NegInf = NegInf"

text \<open>
Modelled from the spec: subtraction in double precision.
\<close>

definition dsub :: "(rat \<Rightarrow> dbl) \<Rightarrow> dbl \<Rightarrow> dbl \<Rightarrow> dbl" where
  "dsub rnd a b = dadd rnd a (dneg b)"

text \<open>
  Modelled from the spec: an infinity, positive if \<open>pos\<close>, times a finite number, which
  is NaN when the number is zero.
\<close>

fun inf_times :: "bool \<Rightarrow> rat \<Rightarrow> dbl" where
  "inf_times pos x =
     (if x = 0 then NaN else if (0 < x) = pos then PosInf else NegInf)"

text \<open>
Modelled from the spec: multiplication in double precision.
\<close>

fun dmul :: "(rat \<Rightarrow> dbl) \<Rightarrow> dbl \<Rightarrow> dbl \<Rightarrow> dbl" where
  "dmul rnd (Fin x) (Fin y) = rnd (x * y)"
| "dmul rnd NaN b = NaN"
| "dmul rnd a NaN = NaN"
| "dmul rnd (Fin x) PosInf = inf_times True x"
| "dmul rnd (Fin x) NegInf = inf_times False x"
| "dmul rnd PosInf (Fin y) = inf_times True y"
| "dmul rnd NegInf (Fin y) = inf_times False y"
| "dmul rnd PosInf PosInf = PosInf"
| "dmul rnd NegInf NegInf = PosInf"
| "dmul rnd PosInf NegInf = NegInf"
| "dmul rnd NegInf PosInf = NegInf"

text \<open>
  Modelled from the spec: equality of doubles as the arithmetic compares them, where a
  NaN equals nothing.
\<close>

fun deq :: "dbl \<Rightarrow> dbl \<Rightarrow> bool" where
  "deq (Fin x) (Fin y) = (x = y)"
| "deq PosInf PosInf = True"
| "deq NegInf NegInf = True"
| "deq _ _ = False"

text \<open>
Modelled from the spec: the order of doubles, where a NaN compares with nothing.
\<close>

fun dless :: "dbl \<Rightarrow> dbl \<Rightarrow> bool" where
  "dless (Fin x) (Fin y) = (x < y)"
| "dless NegInf (Fin y) = True"
| "dless NegInf PosInf = True"
| "dless (Fin x) PosInf = True"
| "dless _ _ = False"

text \<open>
  Modelled from the spec: the agent state in double precision, with position, velocity,
  time and step.
\<close>

record body_state =
  body_x :: dbl
  body_y :: dbl
  body_vx :: dbl
  body_vy :: dbl
  body_time :: dbl
  body_step :: dbl

text \<open>
Modelled from the spec: the interval record in double precision.
\<close>

record body_record =
  from_time :: dbl
  to_time :: dbl
  body_at :: body_state

text \<open>
  Modelled from the spec: the sequence of interval records of one agent in the
  RangeStore, with the run's initial time of the agent.
\<close>

record body_track =
  first_time :: dbl
  body_records :: "body_record list"

text \<open>
Modelled from the spec: the RangeStore in double precision.
\<close>

type_synonym body_store = "(string \<times> body_track) list"

text \<open>
  Modelled from the spec: a state is finite when no field of it is NaN or an infinity.
\<close>

definition finite_body :: "body_state \<Rightarrow> bool" where
  "finite_body a =
     (is_finite (body_x a) \<and> is_finite (body_y a) \<and> is_finite (body_vx a) \<and>
      is_finite (body_vy a) \<and> is_finite (body_time a) \<and> is_finite (body_step a))"

text \<open>
  Modelled from the spec: the end of an agent's last recorded interval, or the run's
  initial time if no prior interval exists.
\<close>

definition body_track_end :: "body_track \<Rightarrow> dbl" where
  "body_track_end tr =
     (if body_records tr = [] then first_time tr else to_time (last (body_records tr)))"

text \<open>
  Modelled from the spec: \<^verbatim>\<open>append\<close> of the RangeStore in double precision, with its
  precondition on the start and the end of the interval.
\<close>

fun append_body ::
  "string \<Rightarrow> dbl \<Rightarrow> dbl \<Rightarrow> body_state \<Rightarrow> body_store \<Rightarrow> exn + body_store" where
  "append_body name s e a [] = Inl IndexingError"
| "append_body name s e a ((n, tr) # st) =
     (if n = name then
        (if deq s (body_track_end tr) \<and> dless s e
         then Inr ((n, tr\<lparr>body_records := body_records tr @
                             [\<lparr>from_time = s, to_time = e, body_at = a\<rparr>]\<rparr>) # st)
         else Inl IndexingError)
      else (case append_body name s e a st of
              Inl err \<Rightarrow> Inl err
            | Inr st' \<Rightarrow> Inr ((n, tr) # st')))"

text \<open>
  Modelled from the spec: the square of the separation of two agents, as the arithmetic
  computes it.
\<close>

definition body_separation_sq :: "(rat \<Rightarrow> dbl) \<Rightarrow> body_state \<Rightarrow> body_state \<Rightarrow> dbl" where
  "body_separation_sq rnd a b =
     dadd rnd (dmul rnd (dsub rnd (body_x b) (body_x a)) (dsub rnd (body_x b) (body_x a)))
              (dmul rnd (dsub rnd (body_y b) (body_y a)) (dsub rnd (body_y b) (body_y a)))"

text \<open>
  Modelled from the spec: step 1 of the Integrator for one agent. Zero separation is
  detected before the pairwise term \<open>F a b\<close> is computed and is a NumericalError.
\<close>

fun body_net_effect ::
  "(rat \<Rightarrow> dbl) \<Rightarrow> (body_state \<Rightarrow> body_state \<Rightarrow> dbl \<times> dbl) \<Rightarrow> body_state
     \<Rightarrow> body_state list \<Rightarrow> exn + dbl \<times> dbl" where
  "body_net_effect rnd F a [] = Inr (Fin 0, Fin 0)"
| "body_net_effect rnd F a (b # bs) =
     (if deq (body_separation_sq rnd a b) (Fin 0) then Inl NumericalError
      else (case body_net_effect rnd F a bs of
              Inl err \<Rightarrow> Inl err
            | Inr (ax, ay) \<Rightarrow> Inr (dadd rnd (fst (F a b)) ax, dadd rnd (snd (F a b)) ay)))"

text \<open>
Modelled from the spec: every other agent of the registry.
\<close>

definition other_bodies :: "string \<Rightarrow> (string \<times> body_state) list \<Rightarrow> body_state list" where
  "other_bodies name ags = map snd (filter (\<lambda>(n, b). n \<noteq> name) ags)"

text \<open>
  Modelled from the spec: step 1 of the Integrator across all agents, from the snapshot
  \<open>snap\<close>.
\<close>

fun body_accelerations ::
  "(rat \<Rightarrow> dbl) \<Rightarrow> (body_state \<Rightarrow> body_state \<Rightarrow> dbl \<times> dbl) \<Rightarrow> (string \<times> body_state) list
     \<Rightarrow> (string \<times> body_state) list \<Rightarrow> exn + (string \<times> body_state \<times> (dbl \<times> dbl)) list" where
  "body_accelerations rnd F snap [] = Inr []"
| "body_accelerations rnd F snap ((n, a) # ags) =
     (case body_net_effect rnd F a (other_bodies n snap) of
        Inl err \<Rightarrow> Inl err
      | Inr acc \<Rightarrow>
          (case body_accelerations rnd F snap ags of
             Inl err \<Rightarrow> Inl err
           | Inr accs \<Rightarrow> Inr ((n, a, acc) # accs)))"

text \<open>
  Modelled from the spec: steps 2 to 4 of the Integrator for one agent: the new velocity,
  the new position from the new velocity, the new time.
\<close>

definition advance_body :: "(rat \<Rightarrow> dbl) \<Rightarrow> body_state \<Rightarrow> dbl \<times> dbl \<Rightarrow> body_state" where
  "advance_body rnd a acc =
     (let dt = body_step a;
          vx = dadd rnd (body_vx a) (dmul rnd (fst acc) dt);
          vy = dadd rnd (body_vy a) (dmul rnd (snd acc) dt)
      in a\<lparr>body_x := dadd rnd (body_x a) (dmul rnd vx dt),
           body_y := dadd rnd (body_y a) (dmul rnd vy dt),
           body_vx := vx, body_vy := vy, body_time := dadd rnd (body_time a) dt\<rparr>)"

text \<open>
  Modelled from the spec: steps 2 to 4 across all agents. A non-finite state produced
  here is a NumericalError, and it is detected before anything is appended.
\<close>

fun advance_bodies ::
  "(rat \<Rightarrow> dbl) \<Rightarrow> (string \<times> body_state \<times> (dbl \<times> dbl)) list
     \<Rightarrow> exn + (string \<times> body_state \<times> body_state) list" where
  "advance_bodies rnd [] = Inr []"
| "advance_bodies rnd ((n, a, acc) # accs) =
     (if finite_body (advance_body rnd a acc)
      then (case advance_bodies rnd accs of
              Inl err \<Rightarrow> Inl err
            | Inr moved \<Rightarrow> Inr ((n, a, advance_body rnd a acc) # moved))
      else Inl NumericalError)"

text \<open>
  Modelled from the spec: step 5 across all agents, each new state appended as the
  interval from the agent's old time to its new time.
\<close>

fun append_bodies ::
  "(string \<times> body_state \<times> body_state) list \<Rightarrow> body_store \<Rightarrow> exn + body_store" where
  "append_bodies [] st = Inr st"
| "append_bodies ((n, a, a') # moved) st =
     (case append_body n (body_time a) (body_time a') a' st of
        Inl err \<Rightarrow> Inl err
      | Inr st1 \<Rightarrow> append_bodies moved st1)"

text \<open>
Modelled from the spec: one global iteration of the Integrator.
\<close>

definition body_step_all ::
  "(rat \<Rightarrow> dbl) \<Rightarrow> (body_state \<Rightarrow> body_state \<Rightarrow> dbl \<times> dbl)
     \<Rightarrow> (string \<times> body_state) list \<times> body_store
     \<Rightarrow> exn + (string \<times> body_state) list \<times> body_store" where
  "body_step_all rnd F s =
     (case body_accelerations rnd F (fst s) (fst s) of
        Inl err \<Rightarrow> Inl err
      | Inr accs \<Rightarrow>
          (case advance_bodies rnd accs of
             Inl err \<Rightarrow> Inl err
           | Inr moved \<Rightarrow>
               (case append_bodies moved (snd s) of
                  Inl err \<Rightarrow> Inl err
                | Inr st' \<Rightarrow> Inr (map (\<lambda>(n, a, a'). (n, a')) moved, st'))))"

text \<open>
Modelled from the spec: a SimulationRun in double precision.
\<close>

record body_run =
  bodies :: "(string \<times> body_state) list"
  tracks :: body_store
  phase :: run_status

text \<open>
  Modelled from the spec: \<^verbatim>\<open>create\<close> on a mapping whose agents supply every field as a
  number, of whatever value: a JSON document as Python reads it can carry NaN and the
  infinities. An empty mapping is a validation error.
\<close>

definition create_bodies :: "(string \<times> body_state) list \<Rightarrow> exn + body_run" where
  "create_bodies ags =
     (if ags = [] then Inl ValidationError
      else Inr \<lparr>bodies = ags,
                tracks = map (\<lambda>(n, a). (n, \<lparr>first_time = body_time a, body_records = []\<rparr>)) ags,
                phase = CREATED\<rparr>)"

text \<open>
  Modelled from the spec: the loop of \<^verbatim>\<open>run(max_iterations)\<close>; a failed iteration leaves
  the results of the iterations before it.
\<close>

fun body_iterate ::
  "(rat \<Rightarrow> dbl) \<Rightarrow> (body_state \<Rightarrow> body_state \<Rightarrow> dbl \<times> dbl) \<Rightarrow> nat \<Rightarrow> nat
     \<Rightarrow> (string \<times> body_state) list \<times> body_store
     \<Rightarrow> ((string \<times> body_state) list \<times> body_store) \<times> run_result" where
  "body_iterate rnd F 0 k s = (s, Success k)"
| "body_iterate rnd F (Suc n) k s =
     (case body_step_all rnd F s of
        Inl err \<Rightarrow> (s, Failure k err)
      | Inr s' \<Rightarrow> body_iterate rnd F n (Suc k) s')"

text \<open>
Modelled from the spec: \<^verbatim>\<open>run(max_iterations)\<close> in double precision.
\<close>

definition run_bodies ::
  "(rat \<Rightarrow> dbl) \<Rightarrow> (body_state \<Rightarrow> body_state \<Rightarrow> dbl \<times> dbl) \<Rightarrow> nat \<Rightarrow> body_run
     \<Rightarrow> body_run \<times> run_result" where
  "run_bodies rnd F max_iterations r =
     (case body_iterate rnd F max_iterations 0 (bodies r, tracks r) of
        (s, Success k) \<Rightarrow> (\<lparr>bodies = fst s, tracks = snd s, phase = COMPLETED\<rparr>, Success k)
      | (s, Failure k err) \<Rightarrow> (\<lparr>bodies = fst s, tracks = snd s, phase = FAILED\<rparr>, Failure k err))"

text \<open>
Modelled from the spec: every state recorded in the store is finite.
\<close>

definition finite_records :: "body_store \<Rightarrow> bool" where
  "finite_records st = (\<forall>(n, tr) \<in> set st. \<forall>c \<in> set (body_records tr). finite_body (body_at c))"

text \<open>
Modelled from the spec: every current state of the registry is finite.
\<close>

definition finite_bodies :: "(string \<times> body_state) list \<Rightarrow> bool" where
  "finite_bodies ags = (\<forall>(n, a) \<in> set ags. finite_body a)"


text \<open>
  Modelled from the spec: the count of completed iterations that the outcome of a run
  carries.
\<close>

fun iterations_of :: "run_result \<Rightarrow> nat" where
  "iterations_of (Success k) = k"
| "iterations_of (Failure k err) = k"

section \<open>Properties stated of the documents and of the store\<close>

text \<open>
  What the loop of \<^verbatim>\<open>simulate\<close> makes of an agent object \<open>f\<close>: in \<open>f'\<close> the time is 0
  and the time step is 0.01, and every other field is as in \<open>f\<close>.
\<close>

definition time_defined :: "pydict \<Rightarrow> pydict \<Rightarrow> bool" where
  "time_defined f f' =
     (dict_get f' ''time'' = Some (PInt 0) \<and> dict_get f' ''timeStep'' = Some (PFloat 0.01) \<and>
      (\<forall>k. k \<noteq> ''time'' \<longrightarrow> k \<noteq> ''timeStep'' \<longrightarrow> dict_get f' k = dict_get f k))"

text \<open>Modelled from the spec: a value is numeric.\<close>

definition is_number :: "pyval \<Rightarrow> bool" where
  "is_number v = (case v of PInt i \<Rightarrow> True | PFloat r \<Rightarrow> True | _ \<Rightarrow> False)"

text \<open>
  Modelled from the spec: what an agent of the initial-conditions mapping must supply,
  in the words of \<^verbatim>\<open>create\<close>: position, velocity, time and step size, all numeric.
  An agent that is not well formed is malformed.
\<close>

definition well_formed_agent :: "pyval \<Rightarrow> bool" where
  "well_formed_agent v =
     (case v of
        PDict d \<Rightarrow>
          (\<forall>k \<in> set [''x'', ''y'', ''vx'', ''vy'', ''time'', ''timeStep''].
             \<exists>x. dict_get d k = Some x \<and> is_number x)
      | _ \<Rightarrow> False)"

text \<open>
  Modelled from the spec: the invariant of an agent's interval records. Every record
  starts before it ends, and each record ends where the next one starts.
\<close>

definition contiguous :: "interval_record list \<Rightarrow> bool" where
  "contiguous recs =
     ((\<forall>i < length recs. start_time (recs ! i) < end_time (recs ! i)) \<and>
      (\<forall>i. Suc i < length recs \<longrightarrow> end_time (recs ! i) = start_time (recs ! Suc i)))"

text \<open>Modelled from the spec: the invariant for every agent of a RangeStore.\<close>

definition store_contiguous :: "range_store \<Rightarrow> bool" where
  "store_contiguous st = (\<forall>(n, tr) \<in> set st. contiguous (records tr))"

section \<open>Example inputs\<close>

text \<open>
  The initial conditions of the comment in \<^verbatim>\<open>simulate\<close> and a request that carries
  them; a request with a single body, one with an empty mapping, and one whose two bodies
  are at the same coordinates.
\<close>

definition example_body :: pydict where
  "example_body =
     [(''Body1'', PDict [(''x'', PInt 0), (''y'', PFloat 0.1), (''vx'', PFloat 0.1), (''vy'', PInt 0)]),
      (''Body2'', PDict [(''x'', PInt 0), (''y'', PInt 1), (''vx'', PInt 1), (''vy'', PInt 0)])]"

definition example_request :: request where
  "example_request =
     \<lparr>req_method = ''POST'', req_path = ''/simulation'',
      req_json = Inr (PDict example_body), req_start_time = Some 0\<rparr>"

definition single_request :: request where
  "single_request =
     \<lparr>req_method = ''POST'', req_path = ''/simulation'',
      req_json = Inr (PDict
        [(''Body3'', PDict [(''x'', PInt 2), (''y'', PInt 3), (''vx'', PInt 0), (''vy'', PInt 1)])]),
      req_start_time = Some 0\<rparr>"

definition empty_request :: request where
  "empty_request =
     \<lparr>req_method = ''POST'', req_path = ''/simulation'',
      req_json = Inr (PDict []), req_start_time = Some 0\<rparr>"

definition coincident_request :: request where
  "coincident_request =
     \<lparr>req_method = ''POST'', req_path = ''/simulation'',
      req_json = Inr (PDict
        [(''Body1'', PDict [(''x'', PInt 0), (''y'', PInt 1), (''vx'', PFloat 0.1), (''vy'', PInt 0)]),
         (''Body2'', PDict [(''x'', PInt 0), (''y'', PInt 1), (''vx'', PInt 1), (''vy'', PInt 0)])]),
      req_start_time = Some 0\<rparr>"

text \<open>The documents that the handler builds from the example and the coincident request.\<close>

definition example_init :: pyval where
  "example_init =
     PDict
       [(''Body1'', PDict [(''x'', PInt 0), (''y'', PFloat 0.1), (''vx'', PFloat 0.1), (''vy'', PInt 0),
                           (''time'', PInt 0), (''timeStep'', PFloat 0.01)]),
        (''Body2'', PDict [(''x'', PInt 0), (''y'', PInt 1), (''vx'', PInt 1), (''vy'', PInt 0),
                           (''time'', PInt 0), (''timeStep'', PFloat 0.01)])]"

definition coincident_init :: pyval where
  "coincident_init =
     PDict
       [(''Body1'', PDict [(''x'', PInt 0), (''y'', PInt 1), (''vx'', PFloat 0.1), (''vy'', PInt 0),
                           (''time'', PInt 0), (''timeStep'', PFloat 0.01)]),
        (''Body2'', PDict [(''x'', PInt 0), (''y'', PInt 1), (''vx'', PInt 1), (''vy'', PInt 0),
                           (''time'', PInt 0), (''timeStep'', PFloat 0.01)])]"

text \<open>The runs created from the two documents.\<close>

definition example_created :: simulation_run where
  "example_created =
     \<lparr>agents =
        [(''Body1'', \<lparr>pos_x = 0, pos_y = 1 / 10, vel_x = 1 / 10, vel_y = 0, cur_time = 0, time_step = 1 / 100\<rparr>),
         (''Body2'', \<lparr>pos_x = 0, pos_y = 1, vel_x = 1, vel_y = 0, cur_time = 0, time_step = 1 / 100\<rparr>)],
      store =
        [(''Body1'', \<lparr>initial_time = 0, records = []\<rparr>),
         (''Body2'', \<lparr>initial_time = 0, records = []\<rparr>)],
      status = CREATED\<rparr>"

definition coincident_created :: simulation_run where
  "coincident_created =
     \<lparr>agents =
        [(''Body1'', \<lparr>pos_x = 0, pos_y = 1, vel_x = 1 / 10, vel_y = 0, cur_time = 0, time_step = 1 / 100\<rparr>),
         (''Body2'', \<lparr>pos_x = 0, pos_y = 1, vel_x = 1, vel_y = 0, cur_time = 0, time_step = 1 / 100\<rparr>)],
      store =
        [(''Body1'', \<lparr>initial_time = 0, records = []\<rparr>),
         (''Body2'', \<lparr>initial_time = 0, records = []\<rparr>)],
      status = CREATED\<rparr>"

text \<open>
  A force law, a serialiser and a metrics registry for the examples: attraction
  proportional to the offset, the agent names of a document, and a count of recordings.
  With them, a core that runs one iteration, and an application state with an empty table.
\<close>

definition example_force :: "agent_state \<Rightarrow> agent_state \<Rightarrow> rat \<times> rat" where
  "example_force a b = (pos_x b - pos_x a, pos_y b - pos_y a)"

definition example_dumps :: "pyval \<Rightarrow> string" where
  "example_dumps v = (case v of PDict d \<Rightarrow> concat (map fst d) | _ \<Rightarrow> [])"

definition example_prometheus :: "nat prometheus" where
  "example_prometheus =
     \<lparr>latency_observe = (\<lambda>m p l c. Inr (Suc c)),
      count_inc = (\<lambda>m p st c. Inr (Suc c)),
      duration_observe = (\<lambda>el c. Suc c)\<rparr>"

definition example_core :: "(simulation_run, range_store) core" where
  "example_core = spec_core example_force (Suc 0) example_dumps"

definition example_state :: "nat app_state" where
  "example_state = \<lparr>db = [], registry = 0\<rparr>"

text \<open>
  Two worlds and a second application state: nothing constructed yet, and a store, a
  simulator and a row left by an earlier request.
\<close>

definition empty_world :: world where
  "empty_world = \<lparr>stores = [], simulators = []\<rparr>"

definition busy_world :: world where
  "busy_world =
     \<lparr>stores = [[(''Old'', \<lparr>initial_time = 0, records = []\<rparr>)]],
      simulators = [\<lparr>held_store = 0, held_agents = [], held_status = FAILED\<rparr>]\<rparr>"

definition busy_state :: "nat app_state" where
  "busy_state = \<lparr>db = [\<lparr>sim_id = 7, sim_data = ''Old''\<rparr>], registry = 5\<rparr>"

text \<open>
  For the core in double precision: a rounding that is exact up to 1000 and overflows
  beyond, an attraction proportional to the offset, the example bodies, two bodies at the
  same finite coordinates, two at the same non-finite coordinates, two whose first step
  overflows, and the run created from a registry.
\<close>

definition example_round :: "rat \<Rightarrow> dbl" where
  "example_round q = (if 1000 < q then PosInf else if q < - 1000 then NegInf else Fin q)"

definition example_body_force :: "body_state \<Rightarrow> body_state \<Rightarrow> dbl \<times> dbl" where
  "example_body_force a b =
     (dsub example_round (body_x b) (body_x a), dsub example_round (body_y b) (body_y a))"

definition example_bodies :: "(string \<times> body_state) list" where
  "example_bodies =
     [(''Body1'', \<lparr>body_x = Fin 0, body_y = Fin (1 / 10), body_vx = Fin (1 / 10), body_vy = Fin 0,
                   body_time = Fin 0, body_step = Fin (1 / 100)\<rparr>),
      (''Body2'', \<lparr>body_x = Fin 0, body_y = Fin 1, body_vx = Fin 1, body_vy = Fin 0,
                   body_time = Fin 0, body_step = Fin (1 / 100)\<rparr>)]"

definition coincident_bodies :: "(string \<times> body_state) list" where
  "coincident_bodies =
     [(''Body1'', \<lparr>body_x = Fin 0, body_y = Fin 1, body_vx = Fin (1 / 10), body_vy = Fin 0,
                   body_time = Fin 0, body_step = Fin (1 / 100)\<rparr>),
      (''Body2'', \<lparr>body_x = Fin 0, body_y = Fin 1, body_vx = Fin 1, body_vy = Fin 0,
                   body_time = Fin 0, body_step = Fin (1 / 100)\<rparr>)]"

definition infinite_bodies :: "(string \<times> body_state) list" where
  "infinite_bodies =
     [(''Body1'', \<lparr>body_x = PosInf, body_y = NaN, body_vx = Fin (1 / 10), body_vy = Fin 0,
                   body_time = Fin 0, body_step = Fin (1 / 100)\<rparr>),
      (''Body2'', \<lparr>body_x = PosInf, body_y = NaN, body_vx = Fin 1, body_vy = Fin 0,
                   body_time = Fin 0, body_step = Fin (1 / 100)\<rparr>)]"

definition fast_bodies :: "(string \<times> body_state) list" where
  "fast_bodies =
     [(''Body1'', \<lparr>body_x = Fin 900, body_y = Fin 0, body_vx = Fin 600, body_vy = Fin 0,
                   body_time = Fin 0, body_step = Fin 1\<rparr>),
      (''Body2'', \<lparr>body_x = Fin 950, body_y = Fin 0, body_vx = Fin 0, body_vy = Fin 0,
                   body_time = Fin 0, body_step = Fin 1\<rparr>)]"

definition created_bodies :: "(string \<times> body_state) list \<Rightarrow> body_run" where
  "created_bodies ags =
     \<lparr>bodies = ags,
      tracks = map (\<lambda>(n, a). (n, \<lparr>first_time = body_time a, body_records = []\<rparr>)) ags,
      phase = CREATED\<rparr>"

section \<open>The initial conditions built by the handler\<close>

lemma dict_get_set_same: "dict_get (dict_set d k v) k = Some v"
  by (induction d) auto

lemma dict_get_set_other: "k' \<noteq> k \<Longrightarrow> dict_get (dict_set d k v) k' = dict_get d k'"
  by (induction d) auto

lemma map_fst_dict_set: "dict_get d k = Some a \<Longrightarrow> map fst (dict_set d k v) = map fst d"
  by (induction d) (auto split: if_splits)

lemma time_defined_trans: "time_defined f g \<Longrightarrow> time_defined g h \<Longrightarrow> time_defined f h"
  by (simp add: time_defined_def)

lemma time_defined_set:
  "time_defined f (dict_set (dict_set f ''time'' (PInt 0)) ''timeStep'' (PFloat 0.01))"
  by (simp add: time_defined_def dict_get_set_same dict_get_set_other)

lemma define_time_Inr:
  assumes "define_time key (PDict d) = Inr r"
  shows "\<exists>f. dict_get d key = Some (PDict f) \<and>
             r = PDict (dict_set d key (PDict (dict_set (dict_set f ''time'' (PInt 0)) ''timeStep'' (PFloat 0.01))))"
proof -
  from assms obtain a where a: "dict_get d key = Some a"
    by (auto simp: define_time_def split: option.splits)
  from assms a obtain f where f: "a = PDict f"
    by (cases a) (auto simp: define_time_def)
  from assms a f show ?thesis
    by (simp add: define_time_def)
qed

lemma for_keys_inv:
  "for_keys ks (PDict d1) = Inr r \<Longrightarrow>
     \<exists>d2. r = PDict d2 \<and> map fst d2 = map fst d1 \<and>
          (\<forall>key. key \<notin> set ks \<longrightarrow> dict_get d2 key = dict_get d1 key) \<and>
          (\<forall>key \<in> set ks. \<forall>a. dict_get d1 key = Some a \<longrightarrow>
             (\<exists>f f'. a = PDict f \<and> dict_get d2 key = Some (PDict f') \<and> time_defined f f'))"
proof (induction ks arbitrary: d1)
  case Nil
  then show ?case by auto
next
  case (Cons k ks)
  from Cons.prems obtain m where m: "define_time k (PDict d1) = Inr m" and r: "for_keys ks m = Inr r"
    by (auto split: sum.splits)
  from define_time_Inr [OF m] obtain f where
    f: "dict_get d1 k = Some (PDict f)" and
    m_eq: "m = PDict (dict_set d1 k (PDict (dict_set (dict_set f ''time'' (PInt 0)) ''timeStep'' (PFloat 0.01))))"
    by blast
  define g where "g = dict_set (dict_set f ''time'' (PInt 0)) ''timeStep'' (PFloat 0.01)"
  define dm where "dm = dict_set d1 k (PDict g)"
  have m_dm: "m = PDict dm" by (simp add: m_eq dm_def g_def)
  have fg: "time_defined f g" unfolding g_def by (rule time_defined_set)
  from Cons.IH [of dm] r m_dm obtain d2 where
    d2: "r = PDict d2" and keys2: "map fst d2 = map fst dm" and
    out: "\<forall>key. key \<notin> set ks \<longrightarrow> dict_get d2 key = dict_get dm key" and
    inn: "\<forall>key \<in> set ks. \<forall>a. dict_get dm key = Some a \<longrightarrow>
             (\<exists>f f'. a = PDict f \<and> dict_get d2 key = Some (PDict f') \<and> time_defined f f')"
    by blast
  have dm_k: "dict_get dm k = Some (PDict g)" by (simp add: dm_def dict_get_set_same)
  have dm_other: "\<And>key. key \<noteq> k \<Longrightarrow> dict_get dm key = dict_get d1 key"
    by (simp add: dm_def dict_get_set_other)
  have keys: "map fst d2 = map fst d1"
    using keys2 f by (simp add: dm_def map_fst_dict_set)
  have outside: "\<forall>key. key \<notin> set (k # ks) \<longrightarrow> dict_get d2 key = dict_get d1 key"
    using out dm_other by simp
  have inside: "\<forall>key \<in> set (k # ks). \<forall>a. dict_get d1 key = Some a \<longrightarrow>
             (\<exists>f f'. a = PDict f \<and> dict_get d2 key = Some (PDict f') \<and> time_defined f f')"
  proof (intro ballI allI impI)
    fix key a
    assume key: "key \<in> set (k # ks)" and a: "dict_get d1 key = Some a"
    show "\<exists>f f'. a = PDict f \<and> dict_get d2 key = Some (PDict f') \<and> time_defined f f'"
    proof (cases "key = k")
      case True
      with a f have af: "a = PDict f" by simp
      show ?thesis
      proof (cases "k \<in> set ks")
        case True
        with inn dm_k obtain f2 h where "PDict g = PDict f2" and h: "dict_get d2 k = Some (PDict h)" and
          "time_defined f2 h" by blast
        then have "time_defined g h" by simp
        with fg have "time_defined f h" by (rule time_defined_trans)
        with af h \<open>key = k\<close> show ?thesis by blast
      next
        case False
        with out dm_k have "dict_get d2 k = Some (PDict g)" by simp
        with af fg \<open>key = k\<close> show ?thesis by blast
      qed
    next
      case False
      with key have "key \<in> set ks" by simp
      moreover from False a have "dict_get dm key = Some a" by (simp add: dm_other)
      ultimately show ?thesis using inn by blast
    qed
  qed
  from d2 keys outside inside show ?case by blast
qed

lemma dict_get_in_keys: "dict_get d k = Some a \<Longrightarrow> k \<in> set (map fst d)"
  by (induction d) (auto split: if_splits)

text \<open>
  Claim C1, as amended. For every agent object of the document in the body of a
  POST /simulation request, the handler sets the time to 0 and the time step to 0.01
  before the core is invoked, whether or not the caller supplied values for these two
  fields; every other field of the agent, and the names and the order of the agents, are
  passed through unchanged.
\<close>

theorem build_init_defines_time:
  assumes "req_json req = Inr (PDict d)" and "build_init req = Inr init"
  shows "\<exists>d'. init = PDict d' \<and> map fst d' = map fst d \<and>
           (\<forall>key a. dict_get d key = Some a \<longrightarrow>
              (\<exists>f f'. a = PDict f \<and> dict_get d' key = Some (PDict f') \<and> time_defined f f'))"
proof -
  have po: "py_or (PDict d) (PDict []) = PDict d"
    by (cases d) (simp_all add: py_or_def)
  from assms po have fk: "for_keys (map fst d) (PDict d) = Inr init"
    by (simp add: build_init_def)
  from for_keys_inv [OF fk] obtain d2 where
    "init = PDict d2" "map fst d2 = map fst d"
    "\<forall>key \<in> set (map fst d). \<forall>a. dict_get d key = Some a \<longrightarrow>
             (\<exists>f f'. a = PDict f \<and> dict_get d2 key = Some (PDict f') \<and> time_defined f f')"
    by blast
  then show ?thesis using dict_get_in_keys by blast
qed


lemma first_id_desc_None: "first_id_desc t = None \<longleftrightarrow> t = []"
  by (induction t) (auto split: option.splits)

lemma first_id_desc_greatest:
  "first_id_desc t = Some r \<Longrightarrow> r \<in> set t \<and> (\<forall>r' \<in> set t. sim_id r' \<le> sim_id r)"
proof (induction t arbitrary: r)
  case Nil
  then show ?case by simp
next
  case (Cons x t)
  show ?case
  proof (cases "first_id_desc t")
    case None
    then have "t = []" by (simp add: first_id_desc_None)
    with Cons.prems show ?thesis by simp
  next
    case (Some b)
    from Cons.IH [OF Some] have b: "b \<in> set t" "\<forall>r' \<in> set t. sim_id r' \<le> sim_id b" by simp_all
    show ?thesis
    proof (cases "sim_id b < sim_id x")
      case True
      with Cons.prems Some have "r = x" by simp
      with b True show ?thesis by fastforce
    next
      case False
      with Cons.prems Some have "r = b" by simp
      with b False show ?thesis by fastforce
    qed
  qed
qed

lemma next_id_greater: "r \<in> set t \<Longrightarrow> sim_id r < next_id t"
proof (cases "first_id_desc t")
  case None
  assume "r \<in> set t"
  with None show ?thesis by (simp add: first_id_desc_None)
next
  case (Some b)
  assume "r \<in> set t"
  with first_id_desc_greatest [OF Some] have "sim_id r \<le> sim_id b" by simp
  with Some show ?thesis by (simp add: next_id_def)
qed

lemma first_id_desc_snoc:
  "(\<forall>r \<in> set t. sim_id r < sim_id x) \<Longrightarrow> first_id_desc (t @ [x]) = Some x"
  by (induction t) auto

lemma first_id_desc_add_commit:
  "first_id_desc (add_commit d t) = Some \<lparr>sim_id = next_id t, sim_data = d\<rparr>"
  unfolding add_commit_def
proof (rule first_id_desc_snoc)
  show "\<forall>r \<in> set t. sim_id r < sim_id \<lparr>sim_id = next_id t, sim_data = d\<rparr>"
    using next_id_greater by simp
qed

lemma get_data_add_commit: "get_data (add_commit d t) = Text d"
  by (simp add: get_data_def first_id_desc_add_commit)

lemma db_simulate:
  "db (snd (simulate P K el req s)) =
     (case run_simulator K req of
        Inl e \<Rightarrow> db s
      | Inr st \<Rightarrow> add_commit (json_dumps K (store_store K st)) (db s))"
  by (simp add: simulate_def split: sum.splits)

lemma get_data_simulate_all:
  "get_data (db (simulate_all P K rs s)) =
     (case last_stored K rs of Some d \<Rightarrow> Text d | None \<Rightarrow> get_data (db s))"
proof (induction rs arbitrary: s)
  case Nil
  show ?case by simp
next
  case (Cons p rs)
  obtain el req where p: "p = (el, req)" by (cases p)
  show ?case
    by (simp add: p Cons.IH db_simulate get_data_add_commit split: option.splits sum.splits)
qed

text \<open>
  Claim C3. When POST /simulation succeeds, the response is the contents of the store
  after the run, and the table has one more row, whose data is the serialisation of those
  same contents.
\<close>

theorem simulate_persists_store:
  assumes "simulate P K el req s = (Inr out, s')"
  shows "\<exists>st. run_simulator K req = Inr st \<and> out = Json (store_store K st) \<and>
           db s' = db s @ [\<lparr>sim_id = next_id (db s), sim_data = json_dumps K (store_store K st)\<rparr>]"
  using assms by (auto simp: simulate_def add_commit_def split: sum.splits)

text \<open>
  Claim C8. If \<^verbatim>\<open>simulator.simulate()\<close> raises, the handler ends with that exception and
  the table is unchanged.
\<close>

theorem simulate_raise_no_row:
  assumes "build_init req = Inr init"
    and "Simulator K (QRangeStore K) init = Inr simulator"
    and "sim_simulate K simulator = Inl e"
  shows "fst (simulate P K el req s) = Inl e \<and> db (snd (simulate P K el req s)) = db s"
  using assms by (simp add: simulate_def run_simulator_def)

text \<open>
  Claim C10. The after-request hook returns the response it was given, for every request
  and every behaviour of the metrics library; the registry is as the \<^verbatim>\<open>try\<close> block left
  it, whether the block raised or not.
\<close>

theorem record_metrics_resp:
  "record_metrics P now req resp m = (resp, snd (record_metrics_try P now req resp m))"
  by (simp add: record_metrics_def split: prod.splits sum.splits)

lemma record_metrics_swallows:
  "latency_observe P (req_method req) (if req_path req \<noteq> [] then req_path req else ''/'')
       (now - start) m = Inl e \<Longrightarrow>
   req_start_time req = Some start \<Longrightarrow> record_metrics P now req resp m = (resp, m)"
  by (simp add: record_metrics_def record_metrics_try_def)

section \<open>The interval records of a run\<close>

lemma contiguous_snoc:
  assumes "contiguous recs" and "recs \<noteq> [] \<Longrightarrow> s = end_time (last recs)" and "s < e"
  shows "contiguous (recs @ [\<lparr>start_time = s, end_time = e, rec_state = a\<rparr>])"
  unfolding contiguous_def
proof (intro conjI allI impI)
  fix i
  assume "i < length (recs @ [\<lparr>start_time = s, end_time = e, rec_state = a\<rparr>])"
  then show "start_time ((recs @ [\<lparr>start_time = s, end_time = e, rec_state = a\<rparr>]) ! i)
               < end_time ((recs @ [\<lparr>start_time = s, end_time = e, rec_state = a\<rparr>]) ! i)"
    using assms(1,3) by (auto simp: contiguous_def nth_append)
next
  fix i
  assume i: "Suc i < length (recs @ [\<lparr>start_time = s, end_time = e, rec_state = a\<rparr>])"
  show "end_time ((recs @ [\<lparr>start_time = s, end_time = e, rec_state = a\<rparr>]) ! i)
          = start_time ((recs @ [\<lparr>start_time = s, end_time = e, rec_state = a\<rparr>]) ! Suc i)"
  proof (cases "Suc i < length recs")
    case True
    with assms(1) show ?thesis by (simp add: contiguous_def nth_append)
  next
    case False
    with i have len: "Suc i = length recs" by simp
    then have ne: "recs \<noteq> []" by auto
    from len have "length recs - 1 = i" by simp
    then have "last recs = recs ! i" by (simp add: last_conv_nth ne)
    with assms(2) [OF ne] len show ?thesis by (simp add: nth_append)
  qed
qed

lemma append_interval_contiguous:
  "append_interval name s e a st = Inr st' \<Longrightarrow> store_contiguous st \<Longrightarrow> store_contiguous st'"
proof (induction st arbitrary: st')
  case Nil
  then show ?case by simp
next
  case (Cons p st)
  obtain n tr where p: "p = (n, tr)" by (cases p)
  show ?case
  proof (cases "n = name")
    case True
    with Cons.prems(1) p have c: "s = track_end tr" "s < e" and
      st': "st' = (n, tr\<lparr>records := records tr @ [\<lparr>start_time = s, end_time = e, rec_state = a\<rparr>]\<rparr>) # st"
      by (auto split: if_splits)
    from Cons.prems(2) p have "contiguous (records tr)" and rest: "store_contiguous st"
      by (simp_all add: store_contiguous_def)
    then have "contiguous (records tr @ [\<lparr>start_time = s, end_time = e, rec_state = a\<rparr>])"
      using c by (intro contiguous_snoc) (simp_all add: track_end_def)
    with rest st' show ?thesis by (simp add: store_contiguous_def)
  next
    case False
    with Cons.prems(1) p obtain st1 where a1: "append_interval name s e a st = Inr st1"
      and st': "st' = (n, tr) # st1"
      by (auto split: sum.splits)
    from Cons.prems(2) p have "contiguous (records tr)" and "store_contiguous st"
      by (simp_all add: store_contiguous_def)
    with Cons.IH [OF a1] st' show ?thesis by (simp add: store_contiguous_def)
  qed
qed

lemma advance_all_contiguous:
  "advance_all accs st = Inr (ags', st') \<Longrightarrow> store_contiguous st \<Longrightarrow> store_contiguous st'"
proof (induction accs arbitrary: st ags')
  case Nil
  then show ?case by simp
next
  case (Cons p accs)
  obtain n a acc where p: "p = (n, a, acc)" by (cases p)
  from Cons.prems(1) p obtain st1 ags1 where
    a1: "append_interval n (cur_time a) (cur_time (advance a acc)) (advance a acc) st = Inr st1" and
    a2: "advance_all accs st1 = Inr (ags1, st')"
    by (auto simp: Let_def split: sum.splits prod.splits)
  from append_interval_contiguous [OF a1 Cons.prems(2)] have "store_contiguous st1" .
  with Cons.IH [OF a2] show ?case .
qed

lemma integrator_step_contiguous:
  "integrator_step F s = Inr s' \<Longrightarrow> store_contiguous (snd s) \<Longrightarrow> store_contiguous (snd s')"
  by (cases s') (auto simp: integrator_step_def split: sum.splits dest: advance_all_contiguous)

lemma iterate_contiguous:
  "iterate F n k s = (s', res) \<Longrightarrow> store_contiguous (snd s) \<Longrightarrow> store_contiguous (snd s')"
proof (induction n arbitrary: k s)
  case 0
  then show ?case by simp
next
  case (Suc n)
  show ?case
  proof (cases "integrator_step F s")
    case (Inl err)
    with Suc.prems show ?thesis by simp
  next
    case (Inr s1)
    with Suc.prems have "iterate F n (Suc k) s1 = (s', res)" by simp
    moreover from Inr Suc.prems(2) have "store_contiguous (snd s1)"
      by (rule integrator_step_contiguous)
    ultimately show ?thesis by (rule Suc.IH)
  qed
qed

lemma iterate_Success: "iterate F n k s = (s', Success j) \<Longrightarrow> j = k + n"
proof (induction n arbitrary: k s)
  case 0
  then show ?case by simp
next
  case (Suc n)
  show ?case
  proof (cases "integrator_step F s")
    case (Inl err)
    with Suc.prems show ?thesis by simp
  next
    case (Inr s1)
    with Suc.prems have "iterate F n (Suc k) s1 = (s', Success j)" by simp
    then have "j = Suc k + n" by (rule Suc.IH)
    then show ?thesis by simp
  qed
qed

lemma create_contiguous: "create init = Inr r \<Longrightarrow> store_contiguous (store r)"
  by (cases init) (auto simp: store_contiguous_def contiguous_def split: if_splits option.splits)

lemma create_status: "create init = Inr r \<Longrightarrow> status r = CREATED"
  by (cases init) (auto split: if_splits option.splits)

lemma run_contiguous:
  assumes "run F n r0 = (r, res)" and "store_contiguous (store r0)"
  shows "store_contiguous (store r)"
proof -
  obtain s' res' where it: "iterate F n 0 (agents r0, store r0) = (s', res')"
    by (cases "iterate F n 0 (agents r0, store r0)")
  from iterate_contiguous [OF it] assms(2) have "store_contiguous (snd s')" by simp
  with assms(1) it show ?thesis by (cases res') (auto simp: run_def)
qed

text \<open>
  Claim C5. For every completed run and every agent, consecutive interval records of the
  exported store satisfy \<open>records[i].end_time = records[i+1].start_time\<close>, and the start
  times are strictly increasing.
\<close>

theorem completed_run_contiguous:
  assumes "create init = Inr r0" and "run F max_iterations r0 = (r, Success k)"
  shows "status r = COMPLETED \<and> k = max_iterations \<and>
         (\<forall>(name, recs) \<in> set (export (store r)). \<forall>i. Suc i < length recs \<longrightarrow>
            end_time (recs ! i) = start_time (recs ! Suc i) \<and>
            start_time (recs ! i) < start_time (recs ! Suc i))"
proof -
  from run_contiguous [OF assms(2) create_contiguous [OF assms(1)]]
  have sc: "store_contiguous (store r)" .
  obtain s' res' where it: "iterate F max_iterations 0 (agents r0, store r0) = (s', res')"
    by (cases "iterate F max_iterations 0 (agents r0, store r0)")
  with assms(2) have res': "res' = Success k" and st: "status r = COMPLETED"
    by (cases res'; auto simp: run_def)+
  from it res' have k: "k = max_iterations" using iterate_Success by fastforce
  have "\<forall>(name, recs) \<in> set (export (store r)). \<forall>i. Suc i < length recs \<longrightarrow>
            end_time (recs ! i) = start_time (recs ! Suc i) \<and>
            start_time (recs ! i) < start_time (recs ! Suc i)"
  proof (clarify)
    fix name recs i
    assume "(name, recs) \<in> set (export (store r))" and i: "Suc i < length recs"
    then obtain tr where "(name, tr) \<in> set (store r)" and "recs = records tr"
      by (auto simp: export_def)
    with sc have c: "contiguous recs" by (auto simp: store_contiguous_def)
    from c i have "end_time (recs ! i) = start_time (recs ! Suc i)" by (simp add: contiguous_def)
    moreover from i have "i < length recs" by simp
    with c have "start_time (recs ! i) < end_time (recs ! i)" by (simp add: contiguous_def)
    ultimately show "end_time (recs ! i) = start_time (recs ! Suc i) \<and>
            start_time (recs ! i) < start_time (recs ! Suc i)" by simp
  qed
  with st k show ?thesis by simp
qed


lemma net_effect_error: "net_effect F a bs = Inl err \<Longrightarrow> err = NumericalError"
  by (induction bs) (auto split: if_splits sum.splits)

lemma net_effect_coincident:
  "b \<in> set bs \<Longrightarrow> separation_sq a b = 0 \<Longrightarrow> net_effect F a bs = Inl NumericalError"
proof (induction bs)
  case Nil
  then show ?case by simp
next
  case (Cons c bs)
  show ?case
  proof (cases "separation_sq a c = 0")
    case True
    then show ?thesis by simp
  next
    case False
    with Cons.prems have "b \<in> set bs" by auto
    with Cons.IH Cons.prems(2) have "net_effect F a bs = Inl NumericalError" by simp
    with False show ?thesis by simp
  qed
qed

lemma accelerations_error: "accelerations F snap ags = Inl err \<Longrightarrow> err = NumericalError"
proof (induction ags)
  case Nil
  then show ?case by simp
next
  case (Cons p ags)
  obtain n a where p: "p = (n, a)" by (cases p)
  from Cons show ?case
    by (auto simp: p split: sum.splits dest: net_effect_error)
qed

lemma accelerations_coincident:
  "(n, a) \<in> set ags \<Longrightarrow> net_effect F a (others n snap) = Inl NumericalError \<Longrightarrow>
     accelerations F snap ags = Inl NumericalError"
proof (induction ags)
  case Nil
  then show ?case by simp
next
  case (Cons p ags)
  obtain m b where p: "p = (m, b)" by (cases p)
  show ?case
  proof (cases "accelerations F snap (p # ags)")
    case (Inl err)
    then show ?thesis using accelerations_error by blast
  next
    case (Inr accs)
    then obtain acc accs' where 1: "net_effect F b (others m snap) = Inr acc"
      and 2: "accelerations F snap ags = Inr accs'"
      by (auto simp: p split: sum.splits)
    from Cons.prems 1 p have "(n, a) \<in> set ags" by auto
    with Cons.IH Cons.prems(2) 2 show ?thesis by simp
  qed
qed

lemma integrator_step_coincident:
  assumes "(n1, a1) \<in> set ags" and "(n2, a2) \<in> set ags" and "n1 \<noteq> n2"
    and "pos_x a1 = pos_x a2" and "pos_y a1 = pos_y a2"
  shows "integrator_step F (ags, st) = Inl NumericalError"
proof -
  from assms(2,3) have "a2 \<in> set (others n1 ags)"
    by (force simp: others_def)
  moreover from assms(4,5) have "separation_sq a1 a2 = 0"
    by (simp add: separation_sq_def)
  ultimately have "net_effect F a1 (others n1 ags) = Inl NumericalError"
    by (rule net_effect_coincident)
  with assms(1) have "accelerations F ags ags = Inl NumericalError"
    by (rule accelerations_coincident)
  then show ?thesis by (simp add: integrator_step_def)
qed

section \<open>Validation, determinism and retrieval\<close>

lemma numeric_None: "numeric v = None \<longleftrightarrow> \<not> is_number v"
  by (cases v) (simp_all add: is_number_def)

lemma num_field_None:
  "num_field d k = None \<longleftrightarrow> \<not> (\<exists>x. dict_get d k = Some x \<and> is_number x)"
  by (simp add: num_field_def numeric_None split: option.splits)

lemma parse_agent_PDict_None:
  "parse_agent (PDict d) = None \<longleftrightarrow>
     num_field d ''x'' = None \<or> num_field d ''y'' = None \<or> num_field d ''vx'' = None \<or>
     num_field d ''vy'' = None \<or> num_field d ''time'' = None \<or> num_field d ''timeStep'' = None"
  by (simp split: Option.bind_splits)

lemma parse_agent_None: "parse_agent v = None \<longleftrightarrow> \<not> well_formed_agent v"
proof (cases v)
  case (PDict d)
  have "well_formed_agent (PDict d) \<longleftrightarrow>
     num_field d ''x'' \<noteq> None \<and> num_field d ''y'' \<noteq> None \<and> num_field d ''vx'' \<noteq> None \<and>
     num_field d ''vy'' \<noteq> None \<and> num_field d ''time'' \<noteq> None \<and> num_field d ''timeStep'' \<noteq> None"
    by (simp add: well_formed_agent_def num_field_None)
  then show ?thesis unfolding PDict parse_agent_PDict_None by simp
qed (simp_all add: well_formed_agent_def)

lemma parse_agents_None:
  "parse_agents d = None \<longleftrightarrow> (\<exists>v \<in> snd ` set d. \<not> well_formed_agent v)"
proof (induction d)
  case Nil
  show ?case by simp
next
  case (Cons p d)
  obtain n v where p: "p = (n, v)" by (cases p)
  have "parse_agents (p # d) = None \<longleftrightarrow> parse_agent v = None \<or> parse_agents d = None"
    by (simp add: p split: option.splits)
  also have "\<dots> \<longleftrightarrow> \<not> well_formed_agent v \<or> (\<exists>v \<in> snd ` set d. \<not> well_formed_agent v)"
    by (simp only: parse_agent_None Cons.IH)
  also have "\<dots> \<longleftrightarrow> (\<exists>v \<in> snd ` set (p # d). \<not> well_formed_agent v)"
    by (simp add: p)
  finally show ?case .
qed

lemma create_Inl:
  "create (PDict d) = Inl e \<longleftrightarrow>
     e = ValidationError \<and> (d = [] \<or> (\<exists>v \<in> snd ` set d. \<not> well_formed_agent v))"
  using parse_agents_None [of d] by (auto split: option.splits)

lemma build_init_empty:
  "req_json req = Inr (PDict []) \<or> req_json req = Inr PNone \<Longrightarrow> build_init req = Inr (PDict [])"
  by (auto simp: build_init_def py_or_def)

lemma build_init_raise: "req_json req = Inl e \<Longrightarrow> build_init req = Inl e"
  by (simp add: build_init_def)

text \<open>
  Claim C2. Creating a run fails with a validation error when the initial-conditions
  mapping is empty or some agent in it is malformed. A POST /simulation request whose
  body cannot be read, is null or is the empty mapping ends with an exception, the
  framework's own or the validation error, for every force law and iteration bound, and
  the table is left as it was.
\<close>

theorem create_validation_error:
  "(d = [] \<or> (\<exists>v \<in> snd ` set d. \<not> well_formed_agent v) \<longrightarrow>
      create (PDict d) = Inl ValidationError) \<and>
   (req_json req = Inl e \<or> req_json req = Inr PNone \<or> req_json req = Inr (PDict []) \<longrightarrow>
      fst (simulate P (spec_core F max_iterations dumps) el req s)
        = Inl (case req_json req of Inl e' \<Rightarrow> e' | Inr j \<Rightarrow> ValidationError) \<and>
      db (snd (simulate P (spec_core F max_iterations dumps) el req s)) = db s)"
proof (intro conjI impI)
  assume "d = [] \<or> (\<exists>v \<in> snd ` set d. \<not> well_formed_agent v)"
  then show "create (PDict d) = Inl ValidationError" using create_Inl by blast
next
  assume a: "req_json req = Inl e \<or> req_json req = Inr PNone \<or> req_json req = Inr (PDict [])"
  then have "run_simulator (spec_core F max_iterations dumps) req
               = Inl (case req_json req of Inl e' \<Rightarrow> e' | Inr j \<Rightarrow> ValidationError)"
    using build_init_empty [of req] build_init_raise [of req e]
    by (auto simp: run_simulator_def spec_core_def)
  then show "fst (simulate P (spec_core F max_iterations dumps) el req s)
        = Inl (case req_json req of Inl e' \<Rightarrow> e' | Inr j \<Rightarrow> ValidationError)"
    and "db (snd (simulate P (spec_core F max_iterations dumps) el req s)) = db s"
    by (simp_all add: simulate_def)
qed

text \<open>
  Claim C9. With no simulation stored, GET /simulation returns the empty list, and it
  returns the empty list in no other case.
\<close>

theorem get_data_empty: "get_data t = Json (PList []) \<longleftrightarrow> t = []"
  by (auto simp: get_data_def first_id_desc_None split: option.splits)

text \<open>
  Claim C4. After any sequence of POST /simulation requests, GET /simulation returns the
  serialised output of the last request whose run completed (and what it returned before
  the sequence if none completed); whenever the table is not empty, what it returns is
  the data of a row whose id is the greatest in the table.
\<close>

theorem get_data_most_recent:
  "get_data (db (simulate_all P K rs s))
     = (case last_stored K rs of Some d \<Rightarrow> Text d | None \<Rightarrow> get_data (db s)) \<and>
   (db (simulate_all P K rs s) \<noteq> [] \<longrightarrow>
      (\<exists>r \<in> set (db (simulate_all P K rs s)).
         get_data (db (simulate_all P K rs s)) = Text (sim_data r) \<and>
         (\<forall>r' \<in> set (db (simulate_all P K rs s)). sim_id r' \<le> sim_id r)))"
proof (intro conjI impI)
  show "get_data (db (simulate_all P K rs s))
     = (case last_stored K rs of Some d \<Rightarrow> Text d | None \<Rightarrow> get_data (db s))"
    by (rule get_data_simulate_all)
next
  let ?t = "db (simulate_all P K rs s)"
  assume "?t \<noteq> []"
  then obtain r where r: "first_id_desc ?t = Some r"
    using first_id_desc_None [of ?t] by auto
  from first_id_desc_greatest [OF r] r
  show "\<exists>r \<in> set ?t. get_data ?t = Text (sim_data r) \<and> (\<forall>r' \<in> set ?t. sim_id r' \<le> sim_id r)"
    by (auto simp: get_data_def)
qed

text \<open>
  Claim C1, as stated, fails: a time of 5 and a time step of 0.5 supplied by the caller
  reach the core as 0 and 0.01.
\<close>

theorem caller_time_not_passed_through:
  "build_init
     \<lparr>req_method = ''POST'', req_path = ''/simulation'',
      req_json = Inr (PDict [(''Body1'', PDict [(''x'', PInt 0), (''y'', PFloat 0.1), (''vx'', PFloat 0.1),
                                              (''vy'', PInt 0), (''time'', PInt 5), (''timeStep'', PFloat 0.5)])]),
      req_start_time = None\<rparr>
   = Inr (PDict [(''Body1'', PDict [(''x'', PInt 0), (''y'', PFloat 0.1), (''vx'', PFloat 0.1),
                                   (''vy'', PInt 0), (''time'', PInt 0), (''timeStep'', PFloat 0.01)])])
   \<and> PInt 0 \<noteq> PInt 5 \<and> PFloat 0.01 \<noteq> PFloat 0.5"
  by (simp add: build_init_def py_or_def define_time_def)

section \<open>Runs as objects in a world\<close>

lemma run_simulator_in_spec:
  "run_simulator_in (spec_objects F n dumps) req w =
     (case build_init req of
        Inl e \<Rightarrow> (Inl e, w)
      | Inr init \<Rightarrow>
          (case create init of
             Inl e \<Rightarrow> (Inl e, w\<lparr>stores := stores w @ [[]]\<rparr>)
           | Inr r \<Rightarrow>
               (case snd (run F n r) of
                  Success k \<Rightarrow> (Inr (length (stores w)), world_after w (fst (run F n r)))
                | Failure k e \<Rightarrow> (Inl e, world_after w (fst (run F n r))))))"
proof (cases "build_init req")
  case (Inl e)
  then show ?thesis by (simp add: run_simulator_in_def)
next
  case (Inr init)
  show ?thesis
  proof (cases "create init")
    case (Inl e)
    with Inr show ?thesis by (simp add: run_simulator_in_def spec_objects_def)
  next
    case r: (Inr r)
    have rr: "\<lparr>agents = agents r, store = store r, status = status r\<rparr> = r" by simp
    show ?thesis
      by (cases "snd (run F n r)")
         (simp_all add: Inr r run_simulator_in_def spec_objects_def Let_def rr world_after_def
           nth_append list_update_append)
  qed
qed


lemma simulate_in_spec:
  "simulate_in P (spec_objects F n dumps) el req (s, w) =
     (case build_init req of
        Inl e \<Rightarrow> (Inl e, s\<lparr>registry := duration_observe P el (registry s)\<rparr>, w)
      | Inr init \<Rightarrow>
          (case create init of
             Inl e \<Rightarrow> (Inl e, s\<lparr>registry := duration_observe P el (registry s)\<rparr>,
                        w\<lparr>stores := stores w @ [[]]\<rparr>)
           | Inr r \<Rightarrow>
               (case snd (run F n r) of
                  Success k \<Rightarrow>
                    (Inr (Json (output_doc (store (fst (run F n r))))),
                     s\<lparr>db := add_commit (dumps (output_doc (store (fst (run F n r))))) (db s),
                       registry := duration_observe P el (registry s)\<rparr>,
                     world_after w (fst (run F n r)))
                | Failure k e \<Rightarrow>
                    (Inl e, s\<lparr>registry := duration_observe P el (registry s)\<rparr>,
                     world_after w (fst (run F n r))))))"
proof -
  have rd: "\<And>r. read_store (spec_objects F n dumps) (length (stores w)) (world_after w r)
                  = output_doc (store r)"
    by (simp add: spec_objects_def world_after_def)
  have cd: "call_dumps (spec_objects F n dumps) = dumps"
    by (simp add: spec_objects_def)
  show ?thesis
    unfolding simulate_in_def run_simulator_in_spec
    by (simp add: rd cd split: sum.splits run_result.splits)
qed

lemma simulate_spec:
  "simulate P (spec_core F n dumps) el req s =
     (case build_init req of
        Inl e \<Rightarrow> (Inl e, s\<lparr>registry := duration_observe P el (registry s)\<rparr>)
      | Inr init \<Rightarrow>
          (case create init of
             Inl e \<Rightarrow> (Inl e, s\<lparr>registry := duration_observe P el (registry s)\<rparr>)
           | Inr r \<Rightarrow>
               (case snd (run F n r) of
                  Success k \<Rightarrow>
                    (Inr (Json (output_doc (store (fst (run F n r))))),
                     s\<lparr>db := add_commit (dumps (output_doc (store (fst (run F n r))))) (db s),
                       registry := duration_observe P el (registry s)\<rparr>)
                | Failure k e \<Rightarrow>
                    (Inl e, s\<lparr>registry := duration_observe P el (registry s)\<rparr>))))"
  by (simp add: simulate_def run_simulator_def spec_core_def
      split: sum.splits run_result.splits prod.splits)

lemma simulate_in_response:
  "fst (simulate_in P (spec_objects F n dumps) el req (s, w))
     = fst (simulate P (spec_core F n dumps) el req s)"
  unfolding simulate_in_spec simulate_spec
  by (simp split: sum.splits run_result.splits)

lemma simulate_in_state:
  "fst (snd (simulate_in P (spec_objects F n dumps) el req (s, w)))
     = snd (simulate P (spec_core F n dumps) el req s)"
  unfolding simulate_in_spec simulate_spec
  by (simp split: sum.splits run_result.splits)

lemma simulate_in_stores:
  "\<exists>new. stores (snd (snd (simulate_in P (spec_objects F n dumps) el req (s, w)))) = stores w @ new
     \<and> length new = (case build_init req of Inl e \<Rightarrow> 0 | Inr init \<Rightarrow> 1)"
  unfolding simulate_in_spec
  by (simp add: world_after_def split: sum.splits run_result.splits)

lemma simulate_in_simulators:
  "\<exists>new. simulators (snd (snd (simulate_in P (spec_objects F n dumps) el req (s, w))))
            = simulators w @ new
     \<and> length new = (case build_init req of
                       Inl e \<Rightarrow> 0
                     | Inr init \<Rightarrow> (case create init of Inl e \<Rightarrow> 0 | Inr r \<Rightarrow> 1))"
  unfolding simulate_in_spec
  by (simp add: world_after_def split: sum.splits run_result.splits)

lemma simulate_in_own_store:
  "(\<exists>e. fst (simulate_in P (spec_objects F n dumps) el req (s, w)) = Inl e) \<or>
   fst (simulate_in P (spec_objects F n dumps) el req (s, w))
     = Inr (Json (output_doc
         (stores (snd (snd (simulate_in P (spec_objects F n dumps) el req (s, w))))
            ! length (stores w))))"
  unfolding simulate_in_spec
  by (simp add: world_after_def split: sum.splits run_result.splits)


lemma simulate_ignores_state:
  "fst (simulate P1 K el1 req s1) = fst (simulate P2 K el2 req s2) \<and>
   map sim_data (drop (length (db s1)) (db (snd (simulate P1 K el1 req s1))))
     = map sim_data (drop (length (db s2)) (db (snd (simulate P2 K el2 req s2))))"
  by (simp add: simulate_def add_commit_def split: sum.splits)

text \<open>
  Claim C7. Two executions of POST /simulation with the same request and the same
  iteration bound give the same response and persist the same document, whatever the
  table, the metrics registry and the world of stores and simulators hold when each of
  them starts. A run leaves every store and every simulator of the earlier runs as it
  was, constructs one store of its own and, once the initial conditions are valid, one
  simulator, and what it returns is the contents of that store.
\<close>

theorem simulate_in_deterministic:
  assumes "simulate_in P1 (spec_objects F max_iterations dumps) el1 req (s1, w1) = (r1, s1', w1')"
    and "simulate_in P2 (spec_objects F max_iterations dumps) el2 req (s2, w2) = (r2, s2', w2')"
  shows "r1 = r2 \<and>
         map sim_data (drop (length (db s1)) (db s1')) = map sim_data (drop (length (db s2)) (db s2')) \<and>
         take (length (stores w1)) (stores w1') = stores w1 \<and>
         take (length (simulators w1)) (simulators w1') = simulators w1 \<and>
         length (stores w1') = length (stores w1) + (case build_init req of Inl e \<Rightarrow> 0 | Inr init \<Rightarrow> 1) \<and>
         length (simulators w1')
           = length (simulators w1) +
             (case build_init req of
                Inl e \<Rightarrow> 0
              | Inr init \<Rightarrow> (case create init of Inl e \<Rightarrow> 0 | Inr r \<Rightarrow> 1)) \<and>
         ((\<exists>e. r1 = Inl e) \<or> r1 = Inr (Json (output_doc (stores w1' ! length (stores w1)))))"
proof -
  let ?K = "spec_objects F max_iterations dumps"
  let ?C = "spec_core F max_iterations dumps"
  from assms have r1: "r1 = fst (simulate_in P1 ?K el1 req (s1, w1))"
    and r2: "r2 = fst (simulate_in P2 ?K el2 req (s2, w2))"
    and s1': "s1' = fst (snd (simulate_in P1 ?K el1 req (s1, w1)))"
    and s2': "s2' = fst (snd (simulate_in P2 ?K el2 req (s2, w2)))"
    and w1': "w1' = snd (snd (simulate_in P1 ?K el1 req (s1, w1)))"
    by simp_all
  have a: "r1 = r2"
    unfolding r1 r2 simulate_in_response using simulate_ignores_state [of P1 ?C el1 req s1 P2 el2 s2]
    by simp
  have b: "map sim_data (drop (length (db s1)) (db s1')) = map sim_data (drop (length (db s2)) (db s2'))"
    unfolding s1' s2' simulate_in_state using simulate_ignores_state [of P1 ?C el1 req s1 P2 el2 s2]
    by simp
  from simulate_in_stores [of P1 F max_iterations dumps el1 req s1 w1] obtain new where
    n: "stores w1' = stores w1 @ new"
       "length new = (case build_init req of Inl e \<Rightarrow> 0 | Inr init \<Rightarrow> 1)"
    unfolding w1' by blast
  from simulate_in_simulators [of P1 F max_iterations dumps el1 req s1 w1] obtain news where
    m: "simulators w1' = simulators w1 @ news"
       "length news = (case build_init req of
                         Inl e \<Rightarrow> 0
                       | Inr init \<Rightarrow> (case create init of Inl e \<Rightarrow> 0 | Inr r \<Rightarrow> 1))"
    unfolding w1' by blast
  have c: "take (length (stores w1)) (stores w1') = stores w1" by (simp add: n)
  have d: "take (length (simulators w1)) (simulators w1') = simulators w1" by (simp add: m)
  have e: "length (stores w1') = length (stores w1) + (case build_init req of Inl e \<Rightarrow> 0 | Inr init \<Rightarrow> 1)"
    by (simp add: n)
  have f: "(\<exists>e. r1 = Inl e) \<or> r1 = Inr (Json (output_doc (stores w1' ! length (stores w1))))"
    unfolding r1 w1' by (rule simulate_in_own_store)
  have g: "length (simulators w1')
           = length (simulators w1) +
             (case build_init req of
                Inl e \<Rightarrow> 0
              | Inr init \<Rightarrow> (case create init of Inl e \<Rightarrow> 0 | Inr r \<Rightarrow> 1))"
    by (simp add: m)
  from a b c d e g f show ?thesis by (intro conjI)
qed

section \<open>Singular and non-finite states\<close>

lemma dadd_not_finite: "\<not> is_finite a \<Longrightarrow> \<not> is_finite (dadd rnd a b)"
  by (cases a; cases b) simp_all

lemma dsub_self: "rnd 0 = Fin 0 \<Longrightarrow> is_finite a \<Longrightarrow> dsub rnd a a = Fin 0"
  by (cases a) (simp_all add: dsub_def)

lemma body_separation_coincident:
  assumes "rnd 0 = Fin 0" and "body_x a = body_x b" and "body_y a = body_y b"
    and "is_finite (body_x a)" and "is_finite (body_y a)"
  shows "body_separation_sq rnd a b = Fin 0"
  using assms by (simp add: body_separation_sq_def dsub_self)

lemma body_net_effect_error: "body_net_effect rnd F a bs = Inl err \<Longrightarrow> err = NumericalError"
  by (induction bs) (auto split: if_splits sum.splits)

lemma body_net_effect_coincident:
  "b \<in> set bs \<Longrightarrow> body_separation_sq rnd a b = Fin 0 \<Longrightarrow>
     body_net_effect rnd F a bs = Inl NumericalError"
proof (induction bs)
  case Nil
  then show ?case by simp
next
  case (Cons c bs)
  show ?case
  proof (cases "deq (body_separation_sq rnd a c) (Fin 0)")
    case True
    then show ?thesis by simp
  next
    case False
    with Cons.prems have "b \<in> set bs" by auto
    with Cons.IH Cons.prems(2) have "body_net_effect rnd F a bs = Inl NumericalError" by simp
    with False show ?thesis by simp
  qed
qed

lemma body_accelerations_error:
  "body_accelerations rnd F snap ags = Inl err \<Longrightarrow> err = NumericalError"
proof (induction ags)
  case Nil
  then show ?case by simp
next
  case (Cons p ags)
  obtain n a where p: "p = (n, a)" by (cases p)
  from Cons show ?case
    by (auto simp: p split: sum.splits dest: body_net_effect_error)
qed

lemma body_accelerations_coincident:
  "(n, a) \<in> set ags \<Longrightarrow> body_net_effect rnd F a (other_bodies n snap) = Inl NumericalError \<Longrightarrow>
     body_accelerations rnd F snap ags = Inl NumericalError"
proof (induction ags)
  case Nil
  then show ?case by simp
next
  case (Cons p ags)
  obtain m b where p: "p = (m, b)" by (cases p)
  show ?case
  proof (cases "body_accelerations rnd F snap (p # ags)")
    case (Inl err)
    then show ?thesis using body_accelerations_error by blast
  next
    case (Inr accs)
    then obtain acc accs' where 1: "body_net_effect rnd F b (other_bodies m snap) = Inr acc"
      and 2: "body_accelerations rnd F snap ags = Inr accs'"
      by (auto simp: p split: sum.splits)
    from Cons.prems 1 p have "(n, a) \<in> set ags" by auto
    with Cons.IH Cons.prems(2) 2 show ?thesis by simp
  qed
qed

lemma body_accelerations_bodies:
  "body_accelerations rnd F snap ags = Inr accs \<Longrightarrow> map (\<lambda>(n, a, acc). (n, a)) accs = ags"
proof (induction ags arbitrary: accs)
  case Nil
  then show ?case by simp
next
  case (Cons p ags)
  obtain n a where p: "p = (n, a)" by (cases p)
  from Cons.prems obtain acc accs' where "accs = (n, a, acc) # accs'"
    and "body_accelerations rnd F snap ags = Inr accs'"
    by (auto simp: p split: sum.splits)
  with Cons.IH [of accs'] p show ?case by simp
qed

lemma advance_bodies_error: "advance_bodies rnd accs = Inl err \<Longrightarrow> err = NumericalError"
proof (induction accs)
  case Nil
  then show ?case by simp
next
  case (Cons p accs)
  obtain n a acc where p: "p = (n, a, acc)" by (cases p)
  from Cons show ?case by (auto simp: p split: if_splits sum.splits)
qed

lemma advance_bodies_not_finite:
  "(n, a, acc) \<in> set accs \<Longrightarrow> \<not> finite_body (advance_body rnd a acc) \<Longrightarrow>
     advance_bodies rnd accs = Inl NumericalError"
proof (induction accs)
  case Nil
  then show ?case by simp
next
  case (Cons p accs)
  obtain m b bacc where p: "p = (m, b, bacc)" by (cases p)
  show ?case
  proof (cases "advance_bodies rnd (p # accs)")
    case (Inl err)
    then show ?thesis using advance_bodies_error by blast
  next
    case (Inr moved)
    then have f: "finite_body (advance_body rnd b bacc)"
      and "\<exists>moved'. advance_bodies rnd accs = Inr moved'"
      by (auto simp: p split: if_splits sum.splits)
    with Cons.prems p have "(n, a, acc) \<in> set accs" by auto
    with Cons.IH Cons.prems(2) \<open>\<exists>moved'. advance_bodies rnd accs = Inr moved'\<close>
    show ?thesis by auto
  qed
qed

lemma advance_body_not_finite:
  "\<not> is_finite (body_x a) \<or> \<not> is_finite (body_y a) \<Longrightarrow> \<not> finite_body (advance_body rnd a acc)"
  by (auto simp: finite_body_def advance_body_def Let_def dadd_not_finite)

lemma body_step_all_not_finite:
  assumes "(n, a) \<in> set ags" and "\<not> is_finite (body_x a) \<or> \<not> is_finite (body_y a)"
  shows "body_step_all rnd F (ags, st) = Inl NumericalError"
proof (cases "body_accelerations rnd F ags ags")
  case (Inl err)
  then show ?thesis using body_accelerations_error [OF Inl] by (simp add: body_step_all_def)
next
  case (Inr accs)
  from body_accelerations_bodies [OF Inr] assms(1)
  have "(n, a) \<in> set (map (\<lambda>(n, a, acc). (n, a)) accs)" by simp
  then obtain acc where "(n, a, acc) \<in> set accs" by auto
  moreover from assms(2) have "\<not> finite_body (advance_body rnd a acc)"
    by (rule advance_body_not_finite)
  ultimately have "advance_bodies rnd accs = Inl NumericalError"
    by (rule advance_bodies_not_finite)
  with Inr show ?thesis by (simp add: body_step_all_def)
qed

lemma body_step_all_coincident:
  assumes "rnd 0 = Fin 0"
    and "(n1, a1) \<in> set ags" and "(n2, a2) \<in> set ags" and "n1 \<noteq> n2"
    and "body_x a1 = body_x a2" and "body_y a1 = body_y a2"
  shows "body_step_all rnd F (ags, st) = Inl NumericalError"
proof (cases "is_finite (body_x a1) \<and> is_finite (body_y a1)")
  case True
  from assms(3,4) have "a2 \<in> set (other_bodies n1 ags)"
    by (force simp: other_bodies_def)
  moreover from assms(1,5,6) True have "body_separation_sq rnd a1 a2 = Fin 0"
    by (simp add: body_separation_coincident)
  ultimately have "body_net_effect rnd F a1 (other_bodies n1 ags) = Inl NumericalError"
    by (rule body_net_effect_coincident)
  with assms(2) have "body_accelerations rnd F ags ags = Inl NumericalError"
    by (rule body_accelerations_coincident)
  then show ?thesis by (simp add: body_step_all_def)
next
  case False
  then have "\<not> is_finite (body_x a1) \<or> \<not> is_finite (body_y a1)" by simp
  with assms(2) show ?thesis by (rule body_step_all_not_finite)
qed

lemma advance_bodies_finite:
  "advance_bodies rnd accs = Inr moved \<Longrightarrow> \<forall>(n, a, a') \<in> set moved. finite_body a'"
proof (induction accs arbitrary: moved)
  case Nil
  then show ?case by simp
next
  case (Cons p accs)
  obtain n a acc where p: "p = (n, a, acc)" by (cases p)
  from Cons.prems obtain moved' where f: "finite_body (advance_body rnd a acc)"
    and m: "advance_bodies rnd accs = Inr moved'"
    and e: "moved = (n, a, advance_body rnd a acc) # moved'"
    by (auto simp: p split: if_splits sum.splits)
  from Cons.IH [OF m] f e show ?case by simp
qed

lemma append_body_finite:
  "append_body name s e a st = Inr st' \<Longrightarrow> finite_body a \<Longrightarrow> finite_records st \<Longrightarrow>
     finite_records st'"
proof (induction st arbitrary: st')
  case Nil
  then show ?case by simp
next
  case (Cons p st)
  obtain n tr where p: "p = (n, tr)" by (cases p)
  show ?case
  proof (cases "n = name")
    case True
    with Cons.prems(1) p have
      "st' = (n, tr\<lparr>body_records := body_records tr @
                      [\<lparr>from_time = s, to_time = e, body_at = a\<rparr>]\<rparr>) # st"
      by (auto split: if_splits)
    with Cons.prems(2,3) p show ?thesis by (auto simp: finite_records_def)
  next
    case False
    with Cons.prems(1) p obtain st1 where a1: "append_body name s e a st = Inr st1"
      and st': "st' = (n, tr) # st1"
      by (auto split: sum.splits)
    from Cons.prems(3) p have "finite_records st" by (simp add: finite_records_def)
    from Cons.IH [OF a1 Cons.prems(2) this] Cons.prems(3) p st'
    show ?thesis by (simp add: finite_records_def)
  qed
qed

lemma append_bodies_finite:
  "append_bodies moved st = Inr st' \<Longrightarrow> \<forall>(n, a, a') \<in> set moved. finite_body a' \<Longrightarrow>
     finite_records st \<Longrightarrow> finite_records st'"
proof (induction moved arbitrary: st)
  case Nil
  then show ?case by simp
next
  case (Cons p moved)
  obtain n a a' where p: "p = (n, a, a')" by (cases p)
  from Cons.prems(1) p obtain st1 where
    a1: "append_body n (body_time a) (body_time a') a' st = Inr st1" and
    a2: "append_bodies moved st1 = Inr st'"
    by (auto split: sum.splits)
  from Cons.prems(2) p have fa: "finite_body a'" and rest: "\<forall>(n, a, a') \<in> set moved. finite_body a'"
    by simp_all
  from append_body_finite [OF a1 fa Cons.prems(3)] have "finite_records st1" .
  from Cons.IH [OF a2 rest this] show ?case .
qed

lemma body_step_all_finite:
  assumes "body_step_all rnd F s = Inr s'" and "finite_records (snd s)"
  shows "finite_bodies (fst s') \<and> finite_records (snd s')"
proof -
  from assms(1) obtain accs moved st' where
    "advance_bodies rnd accs = Inr moved" and
    ap: "append_bodies moved (snd s) = Inr st'" and
    s': "s' = (map (\<lambda>(n, a, a'). (n, a')) moved, st')"
    by (auto simp: body_step_all_def split: sum.splits)
  then have fin: "\<forall>(n, a, a') \<in> set moved. finite_body a'"
    using advance_bodies_finite by blast
  from append_bodies_finite [OF ap fin assms(2)] have "finite_records st'" .
  moreover from fin have "finite_bodies (map (\<lambda>(n, a, a'). (n, a')) moved)"
    by (auto simp: finite_bodies_def)
  ultimately show ?thesis by (simp add: s')
qed

lemma body_iterate_finite:
  "body_iterate rnd F n k s = (s', res) \<Longrightarrow> finite_records (snd s) \<Longrightarrow>
     finite_records (snd s') \<and> (finite_bodies (fst s) \<or> k < iterations_of res \<longrightarrow> finite_bodies (fst s'))
     \<and> k \<le> iterations_of res"
proof (induction n arbitrary: k s)
  case 0
  then show ?case by auto
next
  case (Suc n)
  show ?case
  proof (cases "body_step_all rnd F s")
    case (Inl err)
    with Suc.prems show ?thesis by auto
  next
    case (Inr s1)
    with Suc.prems have it: "body_iterate rnd F n (Suc k) s1 = (s', res)" by simp
    from body_step_all_finite [OF Inr Suc.prems(2)]
    have f1: "finite_bodies (fst s1)" and r1: "finite_records (snd s1)" by simp_all
    from Suc.IH [OF it r1] f1 show ?thesis by auto
  qed
qed

lemma create_bodies_fresh:
  "create_bodies ags = Inr r0 \<Longrightarrow>
     bodies r0 = ags \<and> (\<forall>(n, tr) \<in> set (tracks r0). body_records tr = []) \<and> finite_records (tracks r0)"
  by (auto simp: create_bodies_def finite_records_def split: if_splits)


lemma run_bodies_coincident:
  assumes "rnd 0 = Fin 0" and "create_bodies ags = Inr r0"
    and h1: "(n1, a1) \<in> set ags" and h2: "(n2, a2) \<in> set ags" and h3: "n1 \<noteq> n2"
    and h4: "body_x a1 = body_x a2" and h5: "body_y a1 = body_y a2"
  shows "run_bodies rnd F 1 r0
              = (\<lparr>bodies = bodies r0, tracks = tracks r0, phase = FAILED\<rparr>, Failure 0 NumericalError)"
proof -
  from create_bodies_fresh [OF assms(2)] have b: "bodies r0 = ags" by simp
  have "body_step_all rnd F (ags, tracks r0) = Inl NumericalError"
    by (rule body_step_all_coincident [where rnd = rnd, OF assms(1) h1 h2 h3 h4 h5])
  then have "body_iterate rnd F (Suc 0) 0 (bodies r0, tracks r0)
               = ((bodies r0, tracks r0), Failure 0 NumericalError)"
    by (simp add: b)
  then show ?thesis by (simp add: run_bodies_def)
qed

lemma run_bodies_finite:
  assumes "create_bodies ags = Inr r0" and run: "run_bodies rnd F max_iterations r0 = (r, res)"
  shows "finite_records (tracks r) \<and> (0 < iterations_of res \<longrightarrow> finite_bodies (bodies r))"
proof -
  obtain s' res' where it: "body_iterate rnd F max_iterations 0 (bodies r0, tracks r0) = (s', res')"
    by (cases "body_iterate rnd F max_iterations 0 (bodies r0, tracks r0)")
  from create_bodies_fresh [OF assms(1)] have "finite_records (snd (bodies r0, tracks r0))" by simp
  from body_iterate_finite [OF it this]
  have fr: "finite_records (snd s')" and fb: "0 < iterations_of res' \<longrightarrow> finite_bodies (fst s')"
    by blast+
  have e: "tracks r = snd s' \<and> bodies r = fst s' \<and> res = res'"
  proof (cases res')
    case (Success k)
    with run it show ?thesis by (auto simp: run_bodies_def)
  next
    case (Failure k err)
    with run it show ?thesis by (auto simp: run_bodies_def)
  qed
  with fr fb show ?thesis by simp
qed

text \<open>
  Claim C6. A run created with two agents at identical coordinates, finite or not, fails
  in its first iteration with a NumericalError and with no record in the store. Whatever
  the force law and the rounding, no run records a non-finite state, and after a
  completed iteration the state of every agent is finite.
\<close>

theorem coincident_bodies_numerical_error:
  assumes "rnd 0 = Fin 0" and "create_bodies ags = Inr r0"
  shows "((n1, a1) \<in> set ags \<and> (n2, a2) \<in> set ags \<and> n1 \<noteq> n2 \<and>
          body_x a1 = body_x a2 \<and> body_y a1 = body_y a2 \<longrightarrow>
            run_bodies rnd F 1 r0
              = (\<lparr>bodies = bodies r0, tracks = tracks r0, phase = FAILED\<rparr>, Failure 0 NumericalError) \<and>
            (\<forall>(n, tr) \<in> set (tracks r0). body_records tr = [])) \<and>
         (run_bodies rnd F max_iterations r0 = (r, res) \<longrightarrow>
            finite_records (tracks r) \<and> (0 < iterations_of res \<longrightarrow> finite_bodies (bodies r)))"
proof (intro conjI impI)
  assume c: "(n1, a1) \<in> set ags \<and> (n2, a2) \<in> set ags \<and> n1 \<noteq> n2 \<and>
          body_x a1 = body_x a2 \<and> body_y a1 = body_y a2"
  then have h1: "(n1, a1) \<in> set ags" and h2: "(n2, a2) \<in> set ags" and h3: "n1 \<noteq> n2"
    and h4: "body_x a1 = body_x a2" and h5: "body_y a1 = body_y a2" by simp_all
  show "run_bodies rnd F 1 r0
          = (\<lparr>bodies = bodies r0, tracks = tracks r0, phase = FAILED\<rparr>, Failure 0 NumericalError)"
    by (rule run_bodies_coincident [where rnd = rnd, OF assms h1 h2 h3 h4 h5])
  from create_bodies_fresh [OF assms(2)]
  show "\<forall>(n, tr) \<in> set (tracks r0). body_records tr = []" by simp
next
  assume run: "run_bodies rnd F max_iterations r0 = (r, res)"
  from run_bodies_finite [OF assms(2) run]
  show "finite_records (tracks r)" by simp
next
  assume run: "run_bodies rnd F max_iterations r0 = (r, res)" and pos: "0 < iterations_of res"
  from run_bodies_finite [OF assms(2) run] pos
  show "finite_bodies (bodies r)" by simp
qed

section \<open>The properties on the example inputs\<close>

lemmas core_eval = run_def integrator_step_def others_def separation_sq_def advance_def
  example_force_def track_end_def Let_def

lemma build_init_example: "build_init example_request = Inr example_init"
  by (simp add: example_request_def example_body_def example_init_def build_init_def py_or_def
      define_time_def)

lemma build_init_coincident: "build_init coincident_request = Inr coincident_init"
  by (simp add: coincident_request_def coincident_init_def build_init_def py_or_def define_time_def)

lemma build_init_single:
  "build_init single_request =
     Inr (PDict [(''Body3'', PDict [(''x'', PInt 2), (''y'', PInt 3), (''vx'', PInt 0), (''vy'', PInt 1),
                                   (''time'', PInt 0), (''timeStep'', PFloat 0.01)])])"
  by (simp add: single_request_def build_init_def py_or_def define_time_def)

lemma create_example: "create example_init = Inr example_created"
  by (simp add: example_init_def example_created_def num_field_def)

lemma create_coincident: "create coincident_init = Inr coincident_created"
  by (simp add: coincident_init_def coincident_created_def num_field_def)

lemma run_simulator_example:
  "\<exists>st. run_simulator example_core example_request = Inr st \<and>
        example_dumps (output_doc st) = ''Body1Body2''"
  by (simp add: run_simulator_def build_init_example example_core_def spec_core_def create_example
      example_created_def core_eval output_doc_def export_def example_dumps_def)

lemma run_simulator_single:
  "\<exists>st. run_simulator example_core single_request = Inr st \<and>
        example_dumps (output_doc st) = ''Body3''"
  by (simp add: run_simulator_def build_init_single example_core_def spec_core_def num_field_def
      core_eval output_doc_def export_def example_dumps_def)

lemma run_simulator_coincident:
  "run_simulator example_core coincident_request = Inl NumericalError"
  by (simp add: run_simulator_def build_init_coincident example_core_def spec_core_def
      create_coincident coincident_created_def core_eval)

lemma example_core_sel:
  "json_dumps example_core = example_dumps" "store_store example_core = output_doc"
  by (simp_all add: example_core_def spec_core_def)

text \<open>Claim C1, as amended, on the example request.\<close>

theorem build_init_defines_time_witness:
  "req_json example_request = Inr (PDict example_body) \<and>
   build_init example_request = Inr example_init \<and>
   (\<exists>d'. example_init = PDict d' \<and> map fst d' = map fst example_body \<and>
      (\<forall>key a. dict_get example_body key = Some a \<longrightarrow>
         (\<exists>f f'. a = PDict f \<and> dict_get d' key = Some (PDict f') \<and> time_defined f f')))"
proof -
  have h1: "req_json example_request = Inr (PDict example_body)"
    by (simp add: example_request_def)
  from build_init_defines_time [OF h1 build_init_example] h1 build_init_example
  show ?thesis by simp
qed

text \<open>
  Claim C2 on the empty mapping, on an agent with a string for a coordinate and on the
  request with the empty mapping.
\<close>

theorem create_validation_error_witness:
  "create (PDict []) = Inl ValidationError \<and>
   create (PDict [(''Body1'', PDict [(''x'', PStr ''left''), (''y'', PInt 1)])]) = Inl ValidationError \<and>
   fst (simulate example_prometheus (spec_core example_force (Suc 0) example_dumps) 1 empty_request example_state)
     = Inl ValidationError \<and>
   db (snd (simulate example_prometheus (spec_core example_force (Suc 0) example_dumps) 1 empty_request example_state))
     = db example_state"
proof -
  have h1: "req_json empty_request = Inr (PDict [])"
    by (simp add: empty_request_def)
  have h2: "\<exists>v \<in> snd ` set [(''Body1'', PDict [(''x'', PStr ''left''), (''y'', PInt 1)])].
              \<not> well_formed_agent v"
    by (simp add: well_formed_agent_def is_number_def)
  from create_validation_error
         [of "[]" empty_request BadRequest example_prometheus example_force "Suc 0" example_dumps 1 example_state]
       create_validation_error
         [of "[(''Body1'', PDict [(''x'', PStr ''left''), (''y'', PInt 1)])]" empty_request BadRequest
             example_prometheus example_force "Suc 0" example_dumps 1 example_state]
       h1 h2
  show ?thesis by simp
qed

text \<open>Claim C3 on the example request and the empty table.\<close>

theorem simulate_persists_store_witness:
  "\<exists>out s'. simulate example_prometheus example_core 1 example_request example_state = (Inr out, s') \<and>
     (\<exists>st. run_simulator example_core example_request = Inr st \<and>
           out = Json (store_store example_core st) \<and>
           db s' = db example_state @
             [\<lparr>sim_id = next_id (db example_state),
               sim_data = json_dumps example_core (store_store example_core st)\<rparr>]) \<and>
     db s' = [\<lparr>sim_id = 1, sim_data = ''Body1Body2''\<rparr>]"
proof -
  from run_simulator_example obtain st where
    st: "run_simulator example_core example_request = Inr st" and
    d: "example_dumps (output_doc st) = ''Body1Body2''" by blast
  define s' where "s' = snd (simulate example_prometheus example_core 1 example_request example_state)"
  have h: "simulate example_prometheus example_core 1 example_request example_state
             = (Inr (Json (store_store example_core st)), s')"
    by (simp add: s'_def simulate_def st)
  have "db s' = add_commit (json_dumps example_core (store_store example_core st)) (db example_state)"
    by (simp add: s'_def db_simulate st)
  then have "db s' = [\<lparr>sim_id = 1, sim_data = ''Body1Body2''\<rparr>]"
    using d by (simp add: example_core_sel add_commit_def next_id_def example_state_def)
  with simulate_persists_store [OF h] h show ?thesis by blast
qed

text \<open>Claim C8 on the request with two coincident bodies, whose run raises.\<close>

theorem simulate_raise_no_row_witness:
  "build_init coincident_request = Inr coincident_init \<and>
   Simulator example_core (QRangeStore example_core) coincident_init = Inr coincident_created \<and>
   sim_simulate example_core coincident_created = Inl NumericalError \<and>
   fst (simulate example_prometheus example_core 1 coincident_request example_state) = Inl NumericalError \<and>
   db (snd (simulate example_prometheus example_core 1 coincident_request example_state)) = db example_state"
proof -
  have h2: "Simulator example_core (QRangeStore example_core) coincident_init = Inr coincident_created"
    by (simp add: example_core_def spec_core_def create_coincident)
  have h3: "sim_simulate example_core coincident_created = Inl NumericalError"
    by (simp add: example_core_def spec_core_def coincident_created_def core_eval)
  from simulate_raise_no_row [OF build_init_coincident h2 h3, of example_prometheus 1 example_state]
       build_init_coincident h2 h3
  show ?thesis by simp
qed


text \<open>
  Claim C4 on two completed runs followed by a failed one: the second run's document is
  returned, from the row with id 2.
\<close>

theorem get_data_most_recent_witness:
  "db (simulate_all example_prometheus example_core
         [(1, example_request), (1, single_request), (1, coincident_request)] example_state)
     = [\<lparr>sim_id = 1, sim_data = ''Body1Body2''\<rparr>, \<lparr>sim_id = 2, sim_data = ''Body3''\<rparr>] \<and>
   last_stored example_core [(1, example_request), (1, single_request), (1, coincident_request)]
     = Some ''Body3'' \<and>
   get_data (db (simulate_all example_prometheus example_core
         [(1, example_request), (1, single_request), (1, coincident_request)] example_state))
     = Text ''Body3'' \<and>
   (\<exists>r \<in> set (db (simulate_all example_prometheus example_core
         [(1, example_request), (1, single_request), (1, coincident_request)] example_state)).
      get_data (db (simulate_all example_prometheus example_core
         [(1, example_request), (1, single_request), (1, coincident_request)] example_state))
        = Text (sim_data r) \<and>
      (\<forall>r' \<in> set (db (simulate_all example_prometheus example_core
         [(1, example_request), (1, single_request), (1, coincident_request)] example_state)).
         sim_id r' \<le> sim_id r))"
proof -
  let ?rs = "[(1, example_request), (1, single_request), (1, coincident_request)]"
  let ?t = "db (simulate_all example_prometheus example_core ?rs example_state)"
  from run_simulator_example obtain st1 where
    st1: "run_simulator example_core example_request = Inr st1" and
    d1: "example_dumps (output_doc st1) = ''Body1Body2''" by blast
  from run_simulator_single obtain st2 where
    st2: "run_simulator example_core single_request = Inr st2" and
    d2: "example_dumps (output_doc st2) = ''Body3''" by blast
  have t: "?t = [\<lparr>sim_id = 1, sim_data = ''Body1Body2''\<rparr>, \<lparr>sim_id = 2, sim_data = ''Body3''\<rparr>]"
    by (simp add: db_simulate st1 st2 run_simulator_coincident example_core_sel d1 d2
        add_commit_def next_id_def example_state_def)
  have l: "last_stored example_core ?rs = Some ''Body3''"
    by (simp add: st1 st2 run_simulator_coincident example_core_sel d1 d2)
  from t have ne: "?t \<noteq> []" by simp
  note inst = get_data_most_recent [of example_prometheus example_core ?rs example_state]
  from inst l have g: "get_data ?t = Text ''Body3''" by simp
  from inst ne have
    "\<exists>r \<in> set ?t. get_data ?t = Text (sim_data r) \<and> (\<forall>r' \<in> set ?t. sim_id r' \<le> sim_id r)"
    by blast
  with t l g show ?thesis by blast
qed

text \<open>Claim C5 on a run of two iterations of the example, with two records per agent.\<close>

theorem completed_run_contiguous_witness:
  "\<exists>r. create example_init = Inr example_created \<and>
       run example_force (Suc (Suc 0)) example_created = (r, Success (Suc (Suc 0))) \<and>
       status r = COMPLETED \<and>
       map (\<lambda>(n, recs). (n, map (\<lambda>c. (start_time c, end_time c)) recs)) (export (store r))
         = [(''Body1'', [(0, 1 / 100), (1 / 100, 1 / 50)]),
            (''Body2'', [(0, 1 / 100), (1 / 100, 1 / 50)])] \<and>
       (\<forall>(name, recs) \<in> set (export (store r)). \<forall>i. Suc i < length recs \<longrightarrow>
          end_time (recs ! i) = start_time (recs ! Suc i) \<and>
          start_time (recs ! i) < start_time (recs ! Suc i))"
proof -
  define r where "r = fst (run example_force (Suc (Suc 0)) example_created)"
  have s: "snd (run example_force (Suc (Suc 0)) example_created) = Success (Suc (Suc 0))"
    by (simp add: example_created_def core_eval)
  have h: "run example_force (Suc (Suc 0)) example_created = (r, Success (Suc (Suc 0)))"
    unfolding r_def by (rule prod_eqI) (simp_all only: fst_conv snd_conv s)
  have n: "map (\<lambda>(n, recs). (n, map (\<lambda>c. (start_time c, end_time c)) recs)) (export (store r))
             = [(''Body1'', [(0, 1 / 100), (1 / 100, 1 / 50)]),
                (''Body2'', [(0, 1 / 100), (1 / 100, 1 / 50)])]"
    unfolding r_def by (simp add: example_created_def core_eval export_def)
  from completed_run_contiguous [OF create_example h]
  have c: "status r = COMPLETED"
    and q: "\<forall>(name, recs) \<in> set (export (store r)). \<forall>i. Suc i < length recs \<longrightarrow>
          end_time (recs ! i) = start_time (recs ! Suc i) \<and>
          start_time (recs ! i) < start_time (recs ! Suc i)"
    by simp_all
  show ?thesis
    by (rule exI [of _ r]) (intro conjI create_example h c n q)
qed

text \<open>Claim C9 on the empty table and on a table with one row.\<close>

theorem get_data_empty_witness:
  "get_data [] = Json (PList []) \<and> get_data [\<lparr>sim_id = 1, sim_data = ''Body3''\<rparr>] \<noteq> Json (PList [])"
  using get_data_empty [of "[]"] get_data_empty [of "[\<lparr>sim_id = 1, sim_data = ''Body3''\<rparr>]"]
  by simp

lemma run_example_one:
  "snd (run example_force (Suc 0) example_created) = Success (Suc 0)"
  "example_dumps (output_doc (store (fst (run example_force (Suc 0) example_created)))) = ''Body1Body2''"
  by (simp_all add: example_created_def core_eval output_doc_def export_def example_dumps_def)

lemma simulate_in_example:
  "simulate_in P (spec_objects example_force (Suc 0) example_dumps) el example_request (s, w) =
     (Inr (Json (output_doc (store (fst (run example_force (Suc 0) example_created))))),
      s\<lparr>db := add_commit ''Body1Body2'' (db s), registry := duration_observe P el (registry s)\<rparr>,
      world_after w (fst (run example_force (Suc 0) example_created)))"
  by (simp add: simulate_in_spec build_init_example create_example run_example_one)

text \<open>
  Claim C7 on the example request, handled once with nothing constructed before and once
  after an earlier request.
\<close>

theorem simulate_in_deterministic_witness:
  "\<exists>r s1' w1' s2' w2'.
     simulate_in example_prometheus (spec_objects example_force (Suc 0) example_dumps) 1
         example_request (example_state, empty_world) = (Inr r, s1', w1') \<and>
     simulate_in example_prometheus (spec_objects example_force (Suc 0) example_dumps) 2
         example_request (busy_state, busy_world) = (Inr r, s2', w2') \<and>
     db s1' = [\<lparr>sim_id = 1, sim_data = ''Body1Body2''\<rparr>] \<and>
     db s2' = [\<lparr>sim_id = 7, sim_data = ''Old''\<rparr>, \<lparr>sim_id = 8, sim_data = ''Body1Body2''\<rparr>] \<and>
     take (length (stores busy_world)) (stores w2') = stores busy_world \<and>
     take (length (simulators busy_world)) (simulators w2') = simulators busy_world \<and>
     length (stores w2') = 2 \<and>
     Inr r = Inr (Json (output_doc (stores w2' ! length (stores busy_world))))"
proof -
  define R where "R = fst (run example_force (Suc 0) example_created)"
  define r where "r = Json (output_doc (store R))"
  define s1' where "s1' = example_state\<lparr>db := add_commit ''Body1Body2'' (db example_state),
      registry := duration_observe example_prometheus 1 (registry example_state)\<rparr>"
  define s2' where "s2' = busy_state\<lparr>db := add_commit ''Body1Body2'' (db busy_state),
      registry := duration_observe example_prometheus 2 (registry busy_state)\<rparr>"
  have e1: "simulate_in example_prometheus (spec_objects example_force (Suc 0) example_dumps) 1
         example_request (example_state, empty_world) = (Inr r, s1', world_after empty_world R)"
    by (simp only: simulate_in_example r_def s1'_def R_def)
  have e2: "simulate_in example_prometheus (spec_objects example_force (Suc 0) example_dumps) 2
         example_request (busy_state, busy_world) = (Inr r, s2', world_after busy_world R)"
    by (simp only: simulate_in_example r_def s2'_def R_def)
  have d1: "db s1' = [\<lparr>sim_id = 1, sim_data = ''Body1Body2''\<rparr>]"
    by (simp add: s1'_def example_state_def add_commit_def next_id_def)
  have d2: "db s2' = [\<lparr>sim_id = 7, sim_data = ''Old''\<rparr>, \<lparr>sim_id = 8, sim_data = ''Body1Body2''\<rparr>]"
    by (simp add: s2'_def busy_state_def add_commit_def next_id_def)
  note inst = simulate_in_deterministic [OF e2 e1]
  from inst have t1: "take (length (stores busy_world)) (stores (world_after busy_world R)) = stores busy_world"
    and t2: "take (length (simulators busy_world)) (simulators (world_after busy_world R))
               = simulators busy_world"
    by simp_all
  from inst have "length (stores (world_after busy_world R))
      = length (stores busy_world) + (case build_init example_request of Inl e \<Rightarrow> 0 | Inr init \<Rightarrow> 1)"
    by simp
  then have l: "length (stores (world_after busy_world R)) = 2"
    by (simp add: build_init_example busy_world_def)
  from inst have o: "Inr r = Inr (Json (output_doc (stores (world_after busy_world R) ! length (stores busy_world))))"
    by auto
  show ?thesis
    by (intro exI [of _ r] exI [of _ s1'] exI [of _ s2'] exI [of _ "world_after empty_world R"]
        exI [of _ "world_after busy_world R"] conjI e1 e2 d1 d2 t1 t2 l o)
qed

lemmas body_eval = run_bodies_def body_step_all_def other_bodies_def body_separation_sq_def
  advance_body_def dsub_def finite_body_def body_track_end_def example_round_def
  example_body_force_def created_bodies_def Let_def

lemma example_round_zero: "example_round 0 = Fin 0"
  by (simp add: example_round_def)

lemma create_bodies_created: "ags \<noteq> [] \<Longrightarrow> create_bodies ags = Inr (created_bodies ags)"
  by (simp add: create_bodies_def created_bodies_def)

lemma run_fast_bodies_overflow:
  "snd (run_bodies example_round example_body_force 1 (created_bodies fast_bodies))
     = Failure 0 NumericalError"
  by (simp add: fast_bodies_def body_eval)

lemma run_example_bodies:
  "snd (run_bodies example_round example_body_force (Suc (Suc 0)) (created_bodies example_bodies))
     = Success (Suc (Suc 0))"
  by (simp add: example_bodies_def body_eval)

text \<open>
  Claim C6 on two bodies at the same finite coordinates, on two at the same non-finite
  coordinates, and on a run of two iterations of the example bodies.
\<close>

theorem coincident_bodies_numerical_error_witness:
  "example_round 0 = Fin 0 \<and>
   create_bodies coincident_bodies = Inr (created_bodies coincident_bodies) \<and>
   run_bodies example_round example_body_force 1 (created_bodies coincident_bodies)
     = (\<lparr>bodies = bodies (created_bodies coincident_bodies),
         tracks = tracks (created_bodies coincident_bodies), phase = FAILED\<rparr>,
        Failure 0 NumericalError) \<and>
   run_bodies example_round example_body_force 1 (created_bodies infinite_bodies)
     = (\<lparr>bodies = bodies (created_bodies infinite_bodies),
         tracks = tracks (created_bodies infinite_bodies), phase = FAILED\<rparr>,
        Failure 0 NumericalError) \<and>
   (\<exists>r. run_bodies example_round example_body_force (Suc (Suc 0)) (created_bodies example_bodies)
          = (r, Success (Suc (Suc 0))) \<and>
        finite_records (tracks r) \<and> finite_bodies (bodies r) \<and>
        map (\<lambda>(n, tr). (n, length (body_records tr))) (tracks r) = [(''Body1'', 2), (''Body2'', 2)])"
proof -
  let ?a1 = "\<lparr>body_x = Fin 0, body_y = Fin 1, body_vx = Fin (1 / 10), body_vy = Fin 0,
               body_time = Fin 0, body_step = Fin (1 / 100)\<rparr>"
  let ?a2 = "\<lparr>body_x = Fin 0, body_y = Fin 1, body_vx = Fin 1, body_vy = Fin 0,
               body_time = Fin 0, body_step = Fin (1 / 100)\<rparr>"
  let ?b1 = "\<lparr>body_x = PosInf, body_y = NaN, body_vx = Fin (1 / 10), body_vy = Fin 0,
               body_time = Fin 0, body_step = Fin (1 / 100)\<rparr>"
  let ?b2 = "\<lparr>body_x = PosInf, body_y = NaN, body_vx = Fin 1, body_vy = Fin 0,
               body_time = Fin 0, body_step = Fin (1 / 100)\<rparr>"
  have cc: "create_bodies coincident_bodies = Inr (created_bodies coincident_bodies)"
    by (rule create_bodies_created) (simp add: coincident_bodies_def)
  have ci: "create_bodies infinite_bodies = Inr (created_bodies infinite_bodies)"
    by (rule create_bodies_created) (simp add: infinite_bodies_def)
  have ce: "create_bodies example_bodies = Inr (created_bodies example_bodies)"
    by (rule create_bodies_created) (simp add: example_bodies_def)
  have c: "(''Body1'', ?a1) \<in> set coincident_bodies \<and> (''Body2'', ?a2) \<in> set coincident_bodies \<and>
           ''Body1'' \<noteq> ''Body2'' \<and> body_x ?a1 = body_x ?a2 \<and> body_y ?a1 = body_y ?a2"
    by (simp add: coincident_bodies_def)
  have i: "(''Body1'', ?b1) \<in> set infinite_bodies \<and> (''Body2'', ?b2) \<in> set infinite_bodies \<and>
           ''Body1'' \<noteq> ''Body2'' \<and> body_x ?b1 = body_x ?b2 \<and> body_y ?b1 = body_y ?b2"
    by (simp add: infinite_bodies_def)
  define r where
    "r = fst (run_bodies example_round example_body_force (Suc (Suc 0)) (created_bodies example_bodies))"
  have run: "run_bodies example_round example_body_force (Suc (Suc 0)) (created_bodies example_bodies)
               = (r, Success (Suc (Suc 0)))"
    unfolding r_def by (rule prod_eqI) (simp_all only: fst_conv snd_conv run_example_bodies)
  have len: "map (\<lambda>(n, tr). (n, length (body_records tr))) (tracks r) = [(''Body1'', 2), (''Body2'', 2)]"
    unfolding r_def by (simp add: example_bodies_def body_eval)
  from coincident_bodies_numerical_error
         [where rnd = example_round, OF example_round_zero cc,
          of "''Body1''" ?a1 "''Body2''" ?a2 example_body_force] c
  have f1: "run_bodies example_round example_body_force 1 (created_bodies coincident_bodies)
     = (\<lparr>bodies = bodies (created_bodies coincident_bodies),
         tracks = tracks (created_bodies coincident_bodies), phase = FAILED\<rparr>,
        Failure 0 NumericalError)" by blast
  from coincident_bodies_numerical_error
         [where rnd = example_round, OF example_round_zero ci,
          of "''Body1''" ?b1 "''Body2''" ?b2 example_body_force] i
  have f2: "run_bodies example_round example_body_force 1 (created_bodies infinite_bodies)
     = (\<lparr>bodies = bodies (created_bodies infinite_bodies),
         tracks = tracks (created_bodies infinite_bodies), phase = FAILED\<rparr>,
        Failure 0 NumericalError)" by blast
  from coincident_bodies_numerical_error
         [where rnd = example_round, OF example_round_zero ce,
          of _ _ _ _ example_body_force "Suc (Suc 0)" r "Success (Suc (Suc 0))"] run
  have f3: "finite_records (tracks r)" and f4: "finite_bodies (bodies r)" by simp_all
  show ?thesis
    by (intro conjI exI [of _ r] example_round_zero cc f1 f2 run f3 f4 len)
qed

end
